theory Spec2Isabelle
  imports Main "HOL-Library.Word"
begin

unbundle bit_operations_syntax

section \<open>The PresentMon data provider's shared memory format\<close>

text \<open>
  The source is the header \<^verbatim>\<open>rtss_Include/PMDPSharedMemory.h\<close>: four status macros
  and four struct declarations. The header uses two names of the Windows SDK that it
  does not define: the type \<^verbatim>\<open>DWORD\<close> (an unsigned 32-bit integer) and the macro
  \<^verbatim>\<open>MAX_PATH\<close>, which every definition below takes as the parameter \<open>MAX_PATH\<close>.
\<close>

subsection \<open>C types and their layout\<close>

type_synonym byte = "8 word"
type_synonym uint32_t = "32 word"
type_synonym int32_t = "32 word"
type_synonym uint64_t = "64 word"
type_synonym DWORD = "32 word"

text \<open>
  A \<^verbatim>\<open>double\<close> is carried as its 64-bit IEEE-754 pattern: the shared memory stores
  and returns the pattern, and no operation of the header computes with it.
\<close>

type_synonym double = "64 word"

text \<open>The types that occur in the header's declarations.\<close>

datatype ctype =
    C_char_array nat
  | C_uint32
  | C_int32
  | C_uint64
  | C_double
  | C_struct "(string \<times> ctype) list"
  | C_array ctype nat

abbreviation (input) C_DWORD :: ctype where
  "C_DWORD \<equiv> C_uint32"

type_synonym fields = "(string \<times> ctype) list"

text \<open>
  Natural alignment, the header having no packing directive: a scalar is aligned to its
  size, a struct to its most aligned member, an array to its element; every member sits
  at the next multiple of its alignment, and a struct's size is rounded up to its own
  alignment.
\<close>

definition round_up :: "nat \<Rightarrow> nat \<Rightarrow> nat" where
  "round_up a n = ((n + a - 1) div a) * a"

fun alignof :: "ctype \<Rightarrow> nat" and fields_align :: "fields \<Rightarrow> nat" where
  "alignof (C_char_array n) = 1"
| "alignof C_uint32 = 4"
| "alignof C_int32 = 4"
| "alignof C_uint64 = 8"
| "alignof C_double = 8"
| "alignof (C_struct fs) = fields_align fs"
| "alignof (C_array t n) = alignof t"
| "fields_align [] = 1"
| "fields_align ((nm, t) # fs) = max (alignof t) (fields_align fs)"

fun sizeof :: "ctype \<Rightarrow> nat" and fields_end :: "nat \<Rightarrow> fields \<Rightarrow> nat" where
  "sizeof (C_char_array n) = n"
| "sizeof C_uint32 = 4"
| "sizeof C_int32 = 4"
| "sizeof C_uint64 = 8"
| "sizeof C_double = 8"
| "sizeof (C_struct fs) = round_up (fields_align fs) (fields_end 0 fs)"
| "sizeof (C_array t n) = n * sizeof t"
| "fields_end off [] = off"
| "fields_end off ((nm, t) # fs) = fields_end (round_up (alignof t) off + sizeof t) fs"

fun field_offsets :: "nat \<Rightarrow> fields \<Rightarrow> nat list" where
  "field_offsets off [] = []"
| "field_offsets off ((nm, t) # fs) =
     round_up (alignof t) off # field_offsets (round_up (alignof t) off + sizeof t) fs"

fun field_lookup :: "nat \<Rightarrow> fields \<Rightarrow> string \<Rightarrow> (nat \<times> ctype) option" where
  "field_lookup off [] f = None"
| "field_lookup off ((nm, t) # fs) f =
     (if f = nm then Some (round_up (alignof t) off, t)
      else field_lookup (round_up (alignof t) off + sizeof t) fs f)"

definition offsetof :: "fields \<Rightarrow> string \<Rightarrow> nat option" where
  "offsetof fs f = map_option fst (field_lookup 0 fs f)"

text \<open>
  The bytes of a struct, from the bytes of its members in declaration order: padding
  (zero bytes here) before a member that needs it and after the last one.
\<close>

fun place :: "nat \<Rightarrow> fields \<Rightarrow> byte list list \<Rightarrow> byte list" where
  "place off ((nm, t) # fs) (b # bs) =
     replicate (round_up (alignof t) off - off) 0 @ b
       @ place (round_up (alignof t) off + sizeof t) fs bs"
| "place off _ _ = []"

fun images_fit :: "fields \<Rightarrow> byte list list \<Rightarrow> bool" where
  "images_fit [] [] = True"
| "images_fit ((nm, t) # fs) (b # bs) = (length b = sizeof t \<and> images_fit fs bs)"
| "images_fit _ _ = False"

definition struct_image :: "fields \<Rightarrow> byte list list \<Rightarrow> byte list" where
  "struct_image fs items =
     place 0 fs items @ replicate (sizeof (C_struct fs) - fields_end 0 fs) 0"

text \<open>
  Reading the member \<open>f\<close> of a struct: the \<open>sizeof\<close> bytes at its offset. A name the
  struct does not declare is rejected by the compiler; it reads as no bytes here.
\<close>

definition load_field :: "fields \<Rightarrow> byte list \<Rightarrow> string \<Rightarrow> byte list" where
  "load_field fs bs f =
     (case field_lookup 0 fs f of
        Some (off, t) \<Rightarrow> take (sizeof t) (drop off bs)
      | None \<Rightarrow> [])"

text \<open>Integers in memory, least significant byte first (the x86 byte order).\<close>

fun le_bytes :: "nat \<Rightarrow> 'a::len word \<Rightarrow> byte list" where
  "le_bytes 0 w = []"
| "le_bytes (Suc n) w = ucast w # le_bytes n (drop_bit 8 w)"

fun from_le :: "byte list \<Rightarrow> 'a::len word" where
  "from_le [] = 0"
| "from_le (b # bs) = ucast b OR push_bit 8 (from_le bs)"

definition store_bytes :: "nat \<Rightarrow> byte list \<Rightarrow> byte list \<Rightarrow> byte list" where
  "store_bytes off v mem = take off mem @ v @ drop (off + length v) mem"

definition load_bytes :: "nat \<Rightarrow> nat \<Rightarrow> byte list \<Rightarrow> byte list" where
  "load_bytes off n mem = take n (drop off mem)"

text \<open>
  The string a \<^verbatim>\<open>char\<close> array holds: the characters before the first NUL. An array
  with no NUL holds no string (reading it as one runs off its end).
\<close>

definition c_string :: "byte list \<Rightarrow> byte list option" where
  "c_string buf = (if 0 \<in> set buf then Some (takeWhile (\<lambda>c. c \<noteq> 0) buf) else None)"

subsection \<open>The declarations of the header\<close>

text \<open>\<^verbatim>\<open>struct PM_FRAME_DATA_V1\<close>, lines 14 to 36.\<close>

definition PM_FRAME_DATA_V1_fields :: "nat \<Rightarrow> fields" where
  "PM_FRAME_DATA_V1_fields MAX_PATH =
    [(''Application'', C_char_array MAX_PATH),
     (''ProcessID'', C_uint32),
     (''SwapChainAddress'', C_uint64),
     (''Runtime'', C_uint32),
     (''SyncInterval'', C_int32),
     (''PresentFlags'', C_uint32),
     (''Dropped'', C_uint32),
     (''TimeInSeconds'', C_double),
     (''msInPresentAPI'', C_double),
     (''msBetweenPresents'', C_double),
     (''AllowsTearing'', C_uint32),
     (''PresentMode'', C_uint32),
     (''msUntilRenderComplete'', C_double),
     (''msUntilDisplayed'', C_double),
     (''msBetweenDisplayChange'', C_double),
     (''msUntilRenderStart'', C_double),
     (''qpcTime'', C_uint64),
     (''msSinceInput'', C_double),
     (''msGpuActive'', C_double),
     (''msGpuVideoActive'', C_double)]"

text \<open>\<^verbatim>\<open>struct PM_FRAME_DATA_V2\<close>, lines 38 to 53.\<close>

definition PM_FRAME_DATA_V2_fields :: fields where
  "PM_FRAME_DATA_V2_fields =
    [(''CPUStart'', C_uint64),
     (''Frametime'', C_double),
     (''CPUBusy'', C_double),
     (''CPUWait'', C_double),
     (''GPULatency'', C_double),
     (''GPUTime'', C_double),
     (''GPUBusy'', C_double),
     (''VideoBusy'', C_double),
     (''GPUWait'', C_double),
     (''DisplayLatency'', C_double),
     (''DisplayedTime'', C_double),
     (''AnimationError'', C_double),
     (''ClickToPhotonLatency'', C_double)]"

text \<open>\<^verbatim>\<open>struct PMDP_FRAME_DATA\<close>, lines 55 to 59.\<close>

definition PMDP_FRAME_DATA_fields :: "nat \<Rightarrow> fields" where
  "PMDP_FRAME_DATA_fields MAX_PATH =
    [(''data1'', C_struct (PM_FRAME_DATA_V1_fields MAX_PATH)),
     (''data2'', C_struct PM_FRAME_DATA_V2_fields)]"

text \<open>\<^verbatim>\<open>struct PMDP_SHARED_MEMORY\<close>, lines 61 to 94.\<close>

definition PMDP_SHARED_MEMORY_fields :: "nat \<Rightarrow> fields" where
  "PMDP_SHARED_MEMORY_fields MAX_PATH =
    [(''dwSignature'', C_DWORD),
     (''dwVersion'', C_DWORD),
     (''dwFrameArrEntrySize'', C_DWORD),
     (''dwFrameArrOffset'', C_DWORD),
     (''dwFrameArrSize'', C_DWORD),
     (''dwFrameCount'', C_DWORD),
     (''dwFramePos'', C_DWORD),
     (''dwStatus'', C_DWORD),
     (''arrFrame'', C_array (C_struct (PMDP_FRAME_DATA_fields MAX_PATH)) 8192)]"

text \<open>The status macros, lines 9 to 12.\<close>

definition PMDP_STATUS_OK :: DWORD where
  "PMDP_STATUS_OK = 0"

definition PMDP_STATUS_INIT_FAILED :: DWORD where
  "PMDP_STATUS_INIT_FAILED = 1"

definition PMDP_STATUS_START_STREAM_FAILED :: DWORD where
  "PMDP_STATUS_START_STREAM_FAILED = 2"

definition PMDP_STATUS_GET_FRAME_DATA_FAILED :: DWORD where
  "PMDP_STATUS_GET_FRAME_DATA_FAILED = 3"

subsection \<open>The structs as records\<close>

record PM_FRAME_DATA_V1 =
  Application :: "byte list"
  ProcessID :: uint32_t
  SwapChainAddress :: uint64_t
  Runtime :: uint32_t
  SyncInterval :: int32_t
  PresentFlags :: uint32_t
  Dropped :: uint32_t
  TimeInSeconds :: double
  msInPresentAPI :: double
  msBetweenPresents :: double
  AllowsTearing :: uint32_t
  PresentMode :: uint32_t
  msUntilRenderComplete :: double
  msUntilDisplayed :: double
  msBetweenDisplayChange :: double
  msUntilRenderStart :: double
  qpcTime :: uint64_t
  msSinceInput :: double
  msGpuActive :: double
  msGpuVideoActive :: double

record PM_FRAME_DATA_V2 =
  CPUStart :: uint64_t
  Frametime :: double
  CPUBusy :: double
  CPUWait :: double
  GPULatency :: double
  GPUTime :: double
  GPUBusy :: double
  VideoBusy :: double
  GPUWait :: double
  DisplayLatency :: double
  DisplayedTime :: double
  AnimationError :: double
  ClickToPhotonLatency :: double

record PMDP_FRAME_DATA =
  data1 :: PM_FRAME_DATA_V1
  data2 :: PM_FRAME_DATA_V2

record PMDP_SHARED_MEMORY =
  dwSignature :: DWORD
  dwVersion :: DWORD
  dwFrameArrEntrySize :: DWORD
  dwFrameArrOffset :: DWORD
  dwFrameArrSize :: DWORD
  dwFrameCount :: DWORD
  dwFramePos :: DWORD
  dwStatus :: DWORD
  arrFrame :: "PMDP_FRAME_DATA list"

text \<open>
  A frame record in memory: each member's bytes at the member's place in its struct.
  \<open>Application\<close> is a \<^verbatim>\<open>char[MAX_PATH]\<close>, so a record of the C type has exactly
  \<open>MAX_PATH\<close> bytes there.
\<close>

definition write_PM_FRAME_DATA_V1 :: "nat \<Rightarrow> PM_FRAME_DATA_V1 \<Rightarrow> byte list" where
  "write_PM_FRAME_DATA_V1 MAX_PATH r =
     struct_image (PM_FRAME_DATA_V1_fields MAX_PATH)
      [Application r,
       le_bytes 4 (ProcessID r),
       le_bytes 8 (SwapChainAddress r),
       le_bytes 4 (Runtime r),
       le_bytes 4 (SyncInterval r),
       le_bytes 4 (PresentFlags r),
       le_bytes 4 (Dropped r),
       le_bytes 8 (TimeInSeconds r),
       le_bytes 8 (msInPresentAPI r),
       le_bytes 8 (msBetweenPresents r),
       le_bytes 4 (AllowsTearing r),
       le_bytes 4 (PresentMode r),
       le_bytes 8 (msUntilRenderComplete r),
       le_bytes 8 (msUntilDisplayed r),
       le_bytes 8 (msBetweenDisplayChange r),
       le_bytes 8 (msUntilRenderStart r),
       le_bytes 8 (qpcTime r),
       le_bytes 8 (msSinceInput r),
       le_bytes 8 (msGpuActive r),
       le_bytes 8 (msGpuVideoActive r)]"

definition read_PM_FRAME_DATA_V1 :: "nat \<Rightarrow> byte list \<Rightarrow> PM_FRAME_DATA_V1" where
  "read_PM_FRAME_DATA_V1 MAX_PATH bs =
     (let ld = load_field (PM_FRAME_DATA_V1_fields MAX_PATH) bs in
      \<lparr> Application = ld ''Application'',
        ProcessID = from_le (ld ''ProcessID''),
        SwapChainAddress = from_le (ld ''SwapChainAddress''),
        Runtime = from_le (ld ''Runtime''),
        SyncInterval = from_le (ld ''SyncInterval''),
        PresentFlags = from_le (ld ''PresentFlags''),
        Dropped = from_le (ld ''Dropped''),
        TimeInSeconds = from_le (ld ''TimeInSeconds''),
        msInPresentAPI = from_le (ld ''msInPresentAPI''),
        msBetweenPresents = from_le (ld ''msBetweenPresents''),
        AllowsTearing = from_le (ld ''AllowsTearing''),
        PresentMode = from_le (ld ''PresentMode''),
        msUntilRenderComplete = from_le (ld ''msUntilRenderComplete''),
        msUntilDisplayed = from_le (ld ''msUntilDisplayed''),
        msBetweenDisplayChange = from_le (ld ''msBetweenDisplayChange''),
        msUntilRenderStart = from_le (ld ''msUntilRenderStart''),
        qpcTime = from_le (ld ''qpcTime''),
        msSinceInput = from_le (ld ''msSinceInput''),
        msGpuActive = from_le (ld ''msGpuActive''),
        msGpuVideoActive = from_le (ld ''msGpuVideoActive'') \<rparr>)"

definition write_PM_FRAME_DATA_V2 :: "PM_FRAME_DATA_V2 \<Rightarrow> byte list" where
  "write_PM_FRAME_DATA_V2 r =
     struct_image PM_FRAME_DATA_V2_fields
      [le_bytes 8 (CPUStart r),
       le_bytes 8 (Frametime r),
       le_bytes 8 (CPUBusy r),
       le_bytes 8 (CPUWait r),
       le_bytes 8 (GPULatency r),
       le_bytes 8 (GPUTime r),
       le_bytes 8 (GPUBusy r),
       le_bytes 8 (VideoBusy r),
       le_bytes 8 (GPUWait r),
       le_bytes 8 (DisplayLatency r),
       le_bytes 8 (DisplayedTime r),
       le_bytes 8 (AnimationError r),
       le_bytes 8 (ClickToPhotonLatency r)]"

definition read_PM_FRAME_DATA_V2 :: "byte list \<Rightarrow> PM_FRAME_DATA_V2" where
  "read_PM_FRAME_DATA_V2 bs =
     (let ld = load_field PM_FRAME_DATA_V2_fields bs in
      \<lparr> CPUStart = from_le (ld ''CPUStart''),
        Frametime = from_le (ld ''Frametime''),
        CPUBusy = from_le (ld ''CPUBusy''),
        CPUWait = from_le (ld ''CPUWait''),
        GPULatency = from_le (ld ''GPULatency''),
        GPUTime = from_le (ld ''GPUTime''),
        GPUBusy = from_le (ld ''GPUBusy''),
        VideoBusy = from_le (ld ''VideoBusy''),
        GPUWait = from_le (ld ''GPUWait''),
        DisplayLatency = from_le (ld ''DisplayLatency''),
        DisplayedTime = from_le (ld ''DisplayedTime''),
        AnimationError = from_le (ld ''AnimationError''),
        ClickToPhotonLatency = from_le (ld ''ClickToPhotonLatency'') \<rparr>)"

definition write_PMDP_FRAME_DATA :: "nat \<Rightarrow> PMDP_FRAME_DATA \<Rightarrow> byte list" where
  "write_PMDP_FRAME_DATA MAX_PATH f =
     struct_image (PMDP_FRAME_DATA_fields MAX_PATH)
      [write_PM_FRAME_DATA_V1 MAX_PATH (data1 f), write_PM_FRAME_DATA_V2 (data2 f)]"

definition read_PMDP_FRAME_DATA :: "nat \<Rightarrow> byte list \<Rightarrow> PMDP_FRAME_DATA" where
  "read_PMDP_FRAME_DATA MAX_PATH bs =
     (let ld = load_field (PMDP_FRAME_DATA_fields MAX_PATH) bs in
      \<lparr> data1 = read_PM_FRAME_DATA_V1 MAX_PATH (ld ''data1''),
        data2 = read_PM_FRAME_DATA_V2 (ld ''data2'') \<rparr>)"

text \<open>
  Slot \<open>i\<close> of \<open>arrFrame\<close> in the bytes of the shared region. An index outside the
  array, or a region of another size, is an access out of bounds: \<open>None\<close>.
\<close>

definition slot_offset :: "nat \<Rightarrow> nat \<Rightarrow> nat option" where
  "slot_offset MAX_PATH i =
     (case field_lookup 0 (PMDP_SHARED_MEMORY_fields MAX_PATH) ''arrFrame'' of
        Some (off, C_array t n) \<Rightarrow> if i < n then Some (off + i * sizeof t) else None
      | _ \<Rightarrow> None)"

definition store_frame :: "nat \<Rightarrow> nat \<Rightarrow> PMDP_FRAME_DATA \<Rightarrow> byte list \<Rightarrow> byte list option" where
  "store_frame MAX_PATH i f mem =
     (case slot_offset MAX_PATH i of
        Some off \<Rightarrow>
          if length mem = sizeof (C_struct (PMDP_SHARED_MEMORY_fields MAX_PATH))
          then Some (store_bytes off (write_PMDP_FRAME_DATA MAX_PATH f) mem)
          else None
      | None \<Rightarrow> None)"

definition load_frame :: "nat \<Rightarrow> nat \<Rightarrow> byte list \<Rightarrow> PMDP_FRAME_DATA option" where
  "load_frame MAX_PATH i mem =
     (case slot_offset MAX_PATH i of
        Some off \<Rightarrow>
          if length mem = sizeof (C_struct (PMDP_SHARED_MEMORY_fields MAX_PATH))
          then Some (read_PMDP_FRAME_DATA MAX_PATH
                 (load_bytes off (sizeof (C_struct (PMDP_FRAME_DATA_fields MAX_PATH))) mem))
          else None
      | None \<Rightarrow> None)"

subsection \<open>The header fields and their documented values\<close>

text \<open>
  The comment on \<^verbatim>\<open>dwSignature\<close> (lines 66 to 71) gives the signature three readings:
  \<^verbatim>\<open>'PMDP'\<close>, memory "is initialized and contains valid data"; \<^verbatim>\<open>0xDEAD\<close>, memory
  "is marked for deallocation and no longer contain valid data"; "otherwise the memory
  is not initialized". \<^verbatim>\<open>'PMDP'\<close> is a multi-character constant: the compiler packs the
  four characters into one integer, the first in the most significant byte.
\<close>

definition multichar :: "string \<Rightarrow> DWORD" where
  "multichar cs = foldl (\<lambda>acc c. push_bit 8 acc + of_char c) 0 cs"

definition VALID_MAGIC :: DWORD where
  "VALID_MAGIC = multichar ''PMDP''"

definition TEARDOWN_MAGIC :: DWORD where
  "TEARDOWN_MAGIC = 0xDEAD"

datatype region_state = Valid | TornDown | NotReady

definition signature_state :: "DWORD \<Rightarrow> region_state" where
  "signature_state s =
     (if s = VALID_MAGIC then Valid
      else if s = TEARDOWN_MAGIC then TornDown
      else NotReady)"

text \<open>
  The comment on \<^verbatim>\<open>dwVersion\<close> (lines 73 and 74): "structure version
  ((major<<16) + minor)", "must be set to 0x0001xxxx for v1.x structure".
\<close>

definition make_version :: "16 word \<Rightarrow> 16 word \<Rightarrow> DWORD" where
  "make_version major minor = push_bit 16 (ucast major) + ucast minor"

definition version_major :: "DWORD \<Rightarrow> 16 word" where
  "version_major v = ucast (drop_bit 16 v)"

definition version_minor :: "DWORD \<Rightarrow> 16 word" where
  "version_minor v = ucast v"

subsection \<open>The producer and the reader\<close>

text \<open>
  The header declares data only. The operations on the region are described by the
  specification (sections 3 and 4) and are modelled from it, on the record of the
  header's struct. Section 3 lists the header as signature, version, entrySize,
  entryArrayOffset, entryArrayCount, totalFrameCount, writeCursor, status: in the
  order of the struct's eight \<^verbatim>\<open>DWORD\<close>s, so totalFrameCount is \<open>dwFrameCount\<close>
  ("total frame count in ring buffer array") and writeCursor is \<open>dwFramePos\<close> ("frame
  position in ring buffer array"). Both are 32-bit fields.
\<close>

text \<open>
  The capacity of the ring: the number of entries of \<open>arrFrame\<close> (8192 in the
  header's declaration).
\<close>

definition capacity :: "PMDP_SHARED_MEMORY \<Rightarrow> nat" where
  "capacity h = length (arrFrame h)"

text \<open>A frame record of zero bytes, as in a zeroed region.\<close>

definition zero_frame :: "nat \<Rightarrow> PMDP_FRAME_DATA" where
  "zero_frame MAX_PATH =
     \<lparr> data1 =
         \<lparr> Application = replicate MAX_PATH 0, ProcessID = 0, SwapChainAddress = 0,
           Runtime = 0, SyncInterval = 0, PresentFlags = 0, Dropped = 0,
           TimeInSeconds = 0, msInPresentAPI = 0, msBetweenPresents = 0,
           AllowsTearing = 0, PresentMode = 0, msUntilRenderComplete = 0,
           msUntilDisplayed = 0, msBetweenDisplayChange = 0, msUntilRenderStart = 0,
           qpcTime = 0, msSinceInput = 0, msGpuActive = 0, msGpuVideoActive = 0 \<rparr>,
       data2 =
         \<lparr> CPUStart = 0, Frametime = 0, CPUBusy = 0, CPUWait = 0, GPULatency = 0,
           GPUTime = 0, GPUBusy = 0, VideoBusy = 0, GPUWait = 0, DisplayLatency = 0,
           DisplayedTime = 0, AnimationError = 0, ClickToPhotonLatency = 0 \<rparr> \<rparr>"

text \<open>
  Modelled from the spec: \<open>initialize(capacity, entrySize)\<close> of section 4.1, absent
  from the header. It "allocates/zeroes the region, writes layout descriptor fields,
  sets version to the implementation's current (major,minor), sets signature to VALID";
  the lifecycle of section 3 adds "status OK". The descriptor fields are those of
  section 3: entry size, offset of the array, entry count. The allocation itself
  belongs to the operating system and is not modelled.
\<close>

definition initialize :: "nat \<Rightarrow> nat \<Rightarrow> nat \<Rightarrow> PMDP_SHARED_MEMORY" where
  "initialize MAX_PATH cap entrySize =
     \<lparr> dwSignature = VALID_MAGIC,
       dwVersion = make_version 1 0,
       dwFrameArrEntrySize = of_nat entrySize,
       dwFrameArrOffset =
         (case offsetof (PMDP_SHARED_MEMORY_fields MAX_PATH) ''arrFrame'' of
            Some off \<Rightarrow> of_nat off
          | None \<Rightarrow> 0),
       dwFrameArrSize = of_nat cap,
       dwFrameCount = 0,
       dwFramePos = 0,
       dwStatus = PMDP_STATUS_OK,
       arrFrame = replicate cap (zero_frame MAX_PATH) \<rparr>"

text \<open>
  Modelled from the spec: the result of the reader's \<open>validate\<close>, absent from the
  header. Section 4.1 names \<open>IncompatibleSignature\<close> and \<open>IncompatibleMajorVersion\<close>;
  the signature failure carries which of the two other readings of the signature was
  seen: torn down (section 8, property 6: "returns TornDown") or not ready (section
  4.1, edge case: "treated as not ready").
\<close>

datatype CompatibilityResult =
    OK
  | IncompatibleSignature region_state
  | IncompatibleMajorVersion

text \<open>
  Modelled from the spec: \<open>validate(header)\<close> of section 4.1, absent from the header.
  It "fails with IncompatibleSignature if signature != VALID_MAGIC; fails with
  IncompatibleMajorVersion if major version differs from the reader's expectation;
  succeeds [...] if only minor version differs". The signature is read first, since
  "readers must not trust any other field unless signature == VALID_MAGIC" (section 3).
\<close>

definition validate :: "16 word \<Rightarrow> PMDP_SHARED_MEMORY \<Rightarrow> CompatibilityResult" where
  "validate expected_major h =
     (case signature_state (dwSignature h) of
        Valid \<Rightarrow>
          if version_major (dwVersion h) \<noteq> expected_major then IncompatibleMajorVersion
          else OK
      | TornDown \<Rightarrow> IncompatibleSignature TornDown
      | NotReady \<Rightarrow> IncompatibleSignature NotReady)"

text \<open>
  Modelled from the spec: \<open>teardown(header)\<close> of section 4.1, absent from the header:
  "sets signature to TEARDOWN_MAGIC as the last write".
\<close>

definition teardown :: "PMDP_SHARED_MEMORY \<Rightarrow> PMDP_SHARED_MEMORY" where
  "teardown h = h\<lparr>dwSignature := TEARDOWN_MAGIC\<rparr>"

text \<open>
  Modelled from the spec: the first write of \<open>appendFrame(record)\<close> (section 4.2),
  absent from the header. It "computes the destination slot as writeCursor, writes the
  full FrameRecord (base + extended) into that slot".
\<close>

definition store_record :: "PMDP_FRAME_DATA \<Rightarrow> PMDP_SHARED_MEMORY \<Rightarrow> PMDP_SHARED_MEMORY" where
  "store_record r h = h\<lparr>arrFrame := (arrFrame h)[unat (dwFramePos h) := r]\<rparr>"

text \<open>
  Modelled from the spec: the second write of \<open>appendFrame\<close> (section 4.2), "(a)
  increment totalFrameCount". The field is a \<^verbatim>\<open>DWORD\<close>: the addition wraps.
\<close>

definition bump_count :: "PMDP_SHARED_MEMORY \<Rightarrow> PMDP_SHARED_MEMORY" where
  "bump_count h = h\<lparr>dwFrameCount := dwFrameCount h + 1\<rparr>"

text \<open>
  Modelled from the spec: the third write of \<open>appendFrame\<close> (section 4.2), "(b)
  advance writeCursor = (writeCursor + 1) mod capacity".
\<close>

definition advance_cursor :: "PMDP_SHARED_MEMORY \<Rightarrow> PMDP_SHARED_MEMORY" where
  "advance_cursor h = h\<lparr>dwFramePos := of_nat ((unat (dwFramePos h) + 1) mod capacity h)\<rparr>"

text \<open>
  Modelled from the spec: the three writes of \<open>appendFrame\<close> "in this exact order"
  (section 4.2), as the list of the regions a reader can see after each of them.
\<close>

definition appendFrame_steps :: "PMDP_FRAME_DATA \<Rightarrow> PMDP_SHARED_MEMORY \<Rightarrow> PMDP_SHARED_MEMORY list" where
  "appendFrame_steps r h =
     [store_record r h,
      bump_count (store_record r h),
      advance_cursor (bump_count (store_record r h))]"

text \<open>
  Modelled from the spec: \<open>appendFrame(record)\<close> of section 4.2, absent from the
  header: the region after the three writes. A cursor outside the array (in
  particular an array of no entries) is a write out of bounds: \<open>None\<close>.
\<close>

definition appendFrame :: "PMDP_FRAME_DATA \<Rightarrow> PMDP_SHARED_MEMORY \<Rightarrow> PMDP_SHARED_MEMORY option" where
  "appendFrame r h =
     (if unat (dwFramePos h) < capacity h then Some (last (appendFrame_steps r h)) else None)"

text \<open>
  Modelled from the spec: a "sequence of appends" (section 8, property 1), one
  \<open>appendFrame\<close> after the other; it stops at the first one that fails.
\<close>

fun appendFrames :: "PMDP_FRAME_DATA list \<Rightarrow> PMDP_SHARED_MEMORY \<Rightarrow> PMDP_SHARED_MEMORY option" where
  "appendFrames [] h = Some h"
| "appendFrames (r # rs) h =
     (case appendFrame r h of None \<Rightarrow> None | Some h' \<Rightarrow> appendFrames rs h')"

section \<open>Layout arithmetic\<close>

lemma alignof_pos: "0 < alignof t" and fields_align_pos: "0 < fields_align fs"
  by (induction t and fs rule: alignof_fields_align.induct) auto

lemma round_up_ge: "0 < a \<Longrightarrow> n \<le> round_up a n"
proof -
  assume a: "0 < a"
  have "n + a - 1 = (n + a - 1) div a * a + (n + a - 1) mod a" by simp
  moreover have "(n + a - 1) mod a \<le> a - 1" using a
    by (metis Suc_pred' less_Suc_eq_le mod_less_divisor)
  ultimately show ?thesis unfolding round_up_def using a by linarith
qed

lemma round_up_dvd: "a dvd round_up a n"
  by (simp add: round_up_def)

lemma round_up_id: "0 < a \<Longrightarrow> a dvd n \<Longrightarrow> round_up a n = n"
proof -
  assume a: "0 < a" and d: "a dvd n"
  then obtain k where k: "n = k * a" by (auto elim: dvdE)
  have "(k * a + a - 1) div a = k" using a
    by (metis Euclidean_Rings.div_eq_0_iff Nat.add_diff_assoc Suc_diff_1
        add.right_neutral diff_less div_mult_self4 le_zero_eq less_one
        mult.commute not_gr_zero not_less_eq_eq)
  then show ?thesis unfolding round_up_def k by simp
qed

lemma round_up_1: "round_up (Suc 0) n = n"
  by (simp add: round_up_def)

lemma round_up_8_plus: "round_up 8 (round_up 8 n + 8 * k) = round_up 8 n + 8 * k"
  by (rule round_up_id) (simp_all add: round_up_dvd)

lemma round_up_4_plus: "round_up 4 (round_up 8 n + 4 * k) = round_up 8 n + 4 * k"
proof (rule round_up_id)
  have "(4::nat) dvd 8" by simp
  then have "4 dvd round_up 8 n" using round_up_dvd [of 8 n] by (rule dvd_trans)
  then show "4 dvd round_up 8 n + 4 * k" by simp
qed simp

lemma V1_offsets:
  "field_offsets 0 (PM_FRAME_DATA_V1_fields MAX_PATH) =
     (let B = round_up 8 (round_up 4 MAX_PATH + 4) in
      [0, round_up 4 MAX_PATH, B, B + 8, B + 12, B + 16, B + 20, B + 24, B + 32, B + 40,
       B + 48, B + 52, B + 56, B + 64, B + 72, B + 80, B + 88, B + 96, B + 104, B + 112])"
proof -
  define B where "B = round_up 8 (round_up 4 MAX_PATH + 4)"
  have r8: "round_up 8 (B + 8 * k) = B + 8 * k" for k
    unfolding B_def by (rule round_up_8_plus)
  have r4: "round_up 4 (B + 4 * k) = B + 4 * k" for k
    unfolding B_def by (rule round_up_4_plus)
  show ?thesis
    using r8 [of 1] r8 [of 2] r8 [of 3] r8 [of 4] r8 [of 5] r8 [of 6] r8 [of 7] r8 [of 8]
      r8 [of 9] r8 [of 10] r8 [of 11] r8 [of 12] r8 [of 13] r8 [of 14]
      r4 [of 2] r4 [of 3] r4 [of 4] r4 [of 5] r4 [of 12] r4 [of 13]
    by (simp add: PM_FRAME_DATA_V1_fields_def Let_def B_def [symmetric] round_up_1 add.assoc)
qed

lemma V1_align: "fields_align (PM_FRAME_DATA_V1_fields MAX_PATH) = 8"
  by (simp add: PM_FRAME_DATA_V1_fields_def)

lemma V2_align: "fields_align PM_FRAME_DATA_V2_fields = 8"
  by (simp add: PM_FRAME_DATA_V2_fields_def)

lemma V2_offsets:
  "field_offsets 0 PM_FRAME_DATA_V2_fields = [0, 8, 16, 24, 32, 40, 48, 56, 64, 72, 80, 88, 96]"
  by (simp add: PM_FRAME_DATA_V2_fields_def round_up_def)

lemma V2_size: "sizeof (C_struct PM_FRAME_DATA_V2_fields) = 104"
  by (simp add: PM_FRAME_DATA_V2_fields_def round_up_def)

lemma V1_size:
  "sizeof (C_struct (PM_FRAME_DATA_V1_fields MAX_PATH)) = round_up 8 (round_up 4 MAX_PATH + 4) + 120"
proof -
  define B where "B = round_up 8 (round_up 4 MAX_PATH + 4)"
  have r8: "round_up 8 (B + 8 * k) = B + 8 * k" for k
    unfolding B_def by (rule round_up_8_plus)
  have r4: "round_up 4 (B + 4 * k) = B + 4 * k" for k
    unfolding B_def by (rule round_up_4_plus)
  show ?thesis
    using r8 [of 1] r8 [of 2] r8 [of 3] r8 [of 4] r8 [of 5] r8 [of 6] r8 [of 7] r8 [of 8]
      r8 [of 9] r8 [of 10] r8 [of 11] r8 [of 12] r8 [of 13] r8 [of 14] r8 [of 15]
      r4 [of 2] r4 [of 3] r4 [of 4] r4 [of 5] r4 [of 12] r4 [of 13]
    by (simp add: PM_FRAME_DATA_V1_fields_def B_def [symmetric] round_up_1 add.assoc)
qed

lemma FRAME_align: "fields_align (PMDP_FRAME_DATA_fields MAX_PATH) = 8"
  by (simp add: PMDP_FRAME_DATA_fields_def V1_align V2_align)

lemma FRAME_offsets:
  "field_offsets 0 (PMDP_FRAME_DATA_fields MAX_PATH) =
     [0, sizeof (C_struct (PM_FRAME_DATA_V1_fields MAX_PATH))]"
proof -
  have "round_up 8 (sizeof (C_struct (PM_FRAME_DATA_V1_fields MAX_PATH)))
        = sizeof (C_struct (PM_FRAME_DATA_V1_fields MAX_PATH))"
    unfolding V1_size using round_up_8_plus [of "round_up 4 MAX_PATH + 4" 15] by simp
  then show ?thesis
    by (simp add: PMDP_FRAME_DATA_fields_def V1_align V2_align round_up_def [of 8 0]
        del: sizeof.simps(6))
qed

lemma FRAME_size:
  "sizeof (C_struct (PMDP_FRAME_DATA_fields MAX_PATH)) =
     round_up 8 (round_up 4 MAX_PATH + 4) + 224"
proof -
  let ?B = "round_up 8 (round_up 4 MAX_PATH + 4)"
  have e: "fields_end 0 (PMDP_FRAME_DATA_fields MAX_PATH) = ?B + 224"
    using round_up_8_plus [of "round_up 4 MAX_PATH + 4" 15]
    by (simp add: PMDP_FRAME_DATA_fields_def V1_align V2_align V1_size V2_size
        round_up_def [of 8 0] del: sizeof.simps(6))
  show ?thesis
    unfolding sizeof.simps(6) FRAME_align e
    using round_up_8_plus [of "round_up 4 MAX_PATH + 4" 28] by simp
qed

lemma HEADER_offsets:
  "field_offsets 0 (PMDP_SHARED_MEMORY_fields MAX_PATH) = [0, 4, 8, 12, 16, 20, 24, 28, 32]"
  using FRAME_align [of MAX_PATH]
  by (simp add: PMDP_SHARED_MEMORY_fields_def round_up_def)

lemma HEADER_align: "fields_align (PMDP_SHARED_MEMORY_fields MAX_PATH) = 8"
  using FRAME_align [of MAX_PATH] by (simp add: PMDP_SHARED_MEMORY_fields_def)

lemma HEADER_size:
  "sizeof (C_struct (PMDP_SHARED_MEMORY_fields MAX_PATH)) =
     32 + 8192 * sizeof (C_struct (PMDP_FRAME_DATA_fields MAX_PATH))"
proof -
  let ?F = "sizeof (C_struct (PMDP_FRAME_DATA_fields MAX_PATH))"
  have d: "8 dvd ?F"
    unfolding FRAME_size by (simp add: round_up_dvd)
  have r: "round_up 8 (32 + 8192 * ?F) = 32 + 8192 * ?F"
    by (rule round_up_id) (use d in simp_all)
  have e: "fields_end 0 (PMDP_SHARED_MEMORY_fields MAX_PATH) = 32 + 8192 * ?F"
    using FRAME_align [of MAX_PATH]
    by (simp add: PMDP_SHARED_MEMORY_fields_def round_up_def [of 4] round_up_def [of 8 32]
        del: sizeof.simps(6))
  show ?thesis
    unfolding sizeof.simps(6) [of "PMDP_SHARED_MEMORY_fields MAX_PATH"] HEADER_align e
    by (rule r)
qed

lemma FRAME_size_260: "sizeof (C_struct (PMDP_FRAME_DATA_fields 260)) = 488"
  unfolding FRAME_size by (simp add: round_up_def)

section \<open>Writing and reading a struct\<close>

lemma fields_end_ge: "off \<le> fields_end off fs"
proof (induction fs arbitrary: off)
  case Nil show ?case by simp
next
  case (Cons p fs)
  obtain nm t where p: "p = (nm, t)" by (cases p)
  have "off \<le> round_up (alignof t) off" by (rule round_up_ge [OF alignof_pos])
  also have "\<dots> \<le> round_up (alignof t) off + sizeof t" by simp
  also have "\<dots> \<le> fields_end (round_up (alignof t) off + sizeof t) fs" by (rule Cons.IH)
  finally show ?case by (simp add: p)
qed

lemma length_place:
  "images_fit fs items \<Longrightarrow> length (place off fs items) = fields_end off fs - off"
proof (induction fs items arbitrary: off rule: images_fit.induct)
  case 1 show ?case by simp
next
  case (2 nm t fs b bs)
  let ?o = "round_up (alignof t) off"
  have a: "off \<le> ?o" by (rule round_up_ge [OF alignof_pos])
  have e: "?o + sizeof t \<le> fields_end (?o + sizeof t) fs" by (rule fields_end_ge)
  from 2 have "length (place (?o + sizeof t) fs bs) = fields_end (?o + sizeof t) fs - (?o + sizeof t)"
    by simp
  with 2 a e show ?case by simp
qed simp_all

lemma length_struct_image:
  "images_fit fs items \<Longrightarrow> length (struct_image fs items) = sizeof (C_struct fs)"
  using fields_end_ge [of 0 fs] round_up_ge [OF fields_align_pos, of "fields_end 0 fs" fs]
  by (simp add: struct_image_def length_place)

lemma field_lookup_place:
  "images_fit fs items \<Longrightarrow> distinct (map fst fs) \<Longrightarrow> length pre = off \<Longrightarrow>
   map (\<lambda>f. case field_lookup off fs f of
              Some (off', t) \<Rightarrow> take (sizeof t) (drop off' (pre @ place off fs items @ rest))
            | None \<Rightarrow> []) (map fst fs) = items"
proof (induction fs items arbitrary: off pre rule: images_fit.induct)
  case 1 show ?case by simp
next
  case (2 nm t fs b bs)
  let ?o = "round_up (alignof t) off"
  let ?pre = "pre @ replicate (?o - off) 0 @ b"
  have a: "off \<le> ?o" by (rule round_up_ge [OF alignof_pos])
  from 2 have lb: "length b = sizeof t" and fit: "images_fit fs bs"
    and dist: "distinct (map fst fs)" and nm: "nm \<notin> fst ` set fs" by auto
  have lpre: "length ?pre = ?o + sizeof t" using a lb "2.prems"(3) by simp
  have buf: "pre @ place off ((nm, t) # fs) (b # bs) @ rest
             = ?pre @ place (?o + sizeof t) fs bs @ rest" by simp
  have hd: "take (sizeof t) (drop ?o (pre @ place off ((nm, t) # fs) (b # bs) @ rest)) = b"
    using a lb "2.prems"(3) by simp
  have tl: "map (\<lambda>f. case field_lookup off ((nm, t) # fs) f of
              Some (off', t') \<Rightarrow> take (sizeof t') (drop off' (pre @ place off ((nm, t) # fs) (b # bs) @ rest))
            | None \<Rightarrow> []) (map fst fs)
          = map (\<lambda>f. case field_lookup (?o + sizeof t) fs f of
              Some (off', t') \<Rightarrow> take (sizeof t') (drop off' (?pre @ place (?o + sizeof t) fs bs @ rest))
            | None \<Rightarrow> []) (map fst fs)"
    unfolding buf using nm by (intro map_cong refl) auto
  also have "\<dots> = bs" by (rule "2.IH" [OF fit dist lpre])
  finally show ?case using hd by simp
qed simp_all

lemma load_struct_image:
  "images_fit fs items \<Longrightarrow> distinct (map fst fs) \<Longrightarrow>
   map (load_field fs (struct_image fs items)) (map fst fs) = items"
proof -
  assume fit: "images_fit fs items" and dist: "distinct (map fst fs)"
  let ?tail = "replicate (sizeof (C_struct fs) - fields_end 0 fs) (0 :: byte)"
  have "load_field fs (struct_image fs items)
        = (\<lambda>f. case field_lookup 0 fs f of
              Some (off', t) \<Rightarrow> take (sizeof t) (drop off' ([] @ place 0 fs items @ ?tail))
            | None \<Rightarrow> [])"
    by (rule ext) (simp add: load_field_def struct_image_def split: option.split)
  then show ?thesis
    using field_lookup_place [OF fit dist, of "[]" 0 ?tail] by simp
qed

lemma length_le_bytes: "length (le_bytes n w) = n"
  by (induction n arbitrary: w) simp_all

lemma from_le_le_bytes: "from_le (le_bytes n w) = take_bit (8 * n) w"
proof (induction n arbitrary: w)
  case 0 show ?case by simp
next
  case (Suc n)
  show ?case
    apply (simp add: Suc.IH)
    apply (rule bit_word_eqI)
    apply (auto simp: bit_simps)
    done
qed

lemma from_le_le_bytes_32: "from_le (le_bytes 4 (w :: 32 word)) = w"
  by (simp add: from_le_le_bytes take_bit_word_eq_self)

lemma from_le_le_bytes_64: "from_le (le_bytes 8 (w :: 64 word)) = w"
  by (simp add: from_le_le_bytes take_bit_word_eq_self)

lemma V1_round_trip:
  assumes "length (Application r) = MAX_PATH"
  shows "read_PM_FRAME_DATA_V1 MAX_PATH (write_PM_FRAME_DATA_V1 MAX_PATH r) = r"
proof -
  let ?items = "[Application r, le_bytes 4 (ProcessID r), le_bytes 8 (SwapChainAddress r),
       le_bytes 4 (Runtime r), le_bytes 4 (SyncInterval r), le_bytes 4 (PresentFlags r),
       le_bytes 4 (Dropped r), le_bytes 8 (TimeInSeconds r), le_bytes 8 (msInPresentAPI r),
       le_bytes 8 (msBetweenPresents r), le_bytes 4 (AllowsTearing r),
       le_bytes 4 (PresentMode r), le_bytes 8 (msUntilRenderComplete r),
       le_bytes 8 (msUntilDisplayed r), le_bytes 8 (msBetweenDisplayChange r),
       le_bytes 8 (msUntilRenderStart r), le_bytes 8 (qpcTime r), le_bytes 8 (msSinceInput r),
       le_bytes 8 (msGpuActive r), le_bytes 8 (msGpuVideoActive r)]"
  let ?fs = "PM_FRAME_DATA_V1_fields MAX_PATH"
  have fit: "images_fit ?fs ?items"
    using assms by (simp add: PM_FRAME_DATA_V1_fields_def length_le_bytes)
  have dist: "distinct (map fst ?fs)"
    by (simp add: PM_FRAME_DATA_V1_fields_def)
  have "map (load_field ?fs (struct_image ?fs ?items)) (map fst ?fs) = ?items"
    by (rule load_struct_image [OF fit dist])
  then have "map (load_field ?fs (write_PM_FRAME_DATA_V1 MAX_PATH r))
     [''Application'', ''ProcessID'', ''SwapChainAddress'', ''Runtime'', ''SyncInterval'',
      ''PresentFlags'', ''Dropped'', ''TimeInSeconds'', ''msInPresentAPI'',
      ''msBetweenPresents'', ''AllowsTearing'', ''PresentMode'', ''msUntilRenderComplete'',
      ''msUntilDisplayed'', ''msBetweenDisplayChange'', ''msUntilRenderStart'', ''qpcTime'',
      ''msSinceInput'', ''msGpuActive'', ''msGpuVideoActive''] = ?items"
    unfolding write_PM_FRAME_DATA_V1_def by (simp add: PM_FRAME_DATA_V1_fields_def)
  then show ?thesis
    by (simp add: read_PM_FRAME_DATA_V1_def Let_def from_le_le_bytes_32 from_le_le_bytes_64)
qed

lemma V2_round_trip:
  "read_PM_FRAME_DATA_V2 (write_PM_FRAME_DATA_V2 r) = r"
proof -
  let ?items = "[le_bytes 8 (CPUStart r), le_bytes 8 (Frametime r), le_bytes 8 (CPUBusy r),
       le_bytes 8 (CPUWait r), le_bytes 8 (GPULatency r), le_bytes 8 (GPUTime r),
       le_bytes 8 (GPUBusy r), le_bytes 8 (VideoBusy r), le_bytes 8 (GPUWait r),
       le_bytes 8 (DisplayLatency r), le_bytes 8 (DisplayedTime r),
       le_bytes 8 (AnimationError r), le_bytes 8 (ClickToPhotonLatency r)]"
  let ?fs = "PM_FRAME_DATA_V2_fields"
  have fit: "images_fit ?fs ?items"
    by (simp add: PM_FRAME_DATA_V2_fields_def length_le_bytes)
  have dist: "distinct (map fst ?fs)"
    by (simp add: PM_FRAME_DATA_V2_fields_def)
  have "map (load_field ?fs (struct_image ?fs ?items)) (map fst ?fs) = ?items"
    by (rule load_struct_image [OF fit dist])
  then have "map (load_field ?fs (write_PM_FRAME_DATA_V2 r))
     [''CPUStart'', ''Frametime'', ''CPUBusy'', ''CPUWait'', ''GPULatency'', ''GPUTime'',
      ''GPUBusy'', ''VideoBusy'', ''GPUWait'', ''DisplayLatency'', ''DisplayedTime'',
      ''AnimationError'', ''ClickToPhotonLatency''] = ?items"
    unfolding write_PM_FRAME_DATA_V2_def by (simp add: PM_FRAME_DATA_V2_fields_def)
  then show ?thesis
    by (simp add: read_PM_FRAME_DATA_V2_def Let_def from_le_le_bytes_64)
qed

lemma length_write_V1:
  "length (Application r) = MAX_PATH \<Longrightarrow>
   length (write_PM_FRAME_DATA_V1 MAX_PATH r) = sizeof (C_struct (PM_FRAME_DATA_V1_fields MAX_PATH))"
  unfolding write_PM_FRAME_DATA_V1_def
  by (rule length_struct_image) (simp add: PM_FRAME_DATA_V1_fields_def length_le_bytes)

lemma length_write_V2:
  "length (write_PM_FRAME_DATA_V2 r) = sizeof (C_struct PM_FRAME_DATA_V2_fields)"
  unfolding write_PM_FRAME_DATA_V2_def
  by (rule length_struct_image) (simp add: PM_FRAME_DATA_V2_fields_def length_le_bytes)

lemma FRAME_fit:
  "length (Application (data1 f)) = MAX_PATH \<Longrightarrow>
   images_fit (PMDP_FRAME_DATA_fields MAX_PATH)
     [write_PM_FRAME_DATA_V1 MAX_PATH (data1 f), write_PM_FRAME_DATA_V2 (data2 f)]"
  by (simp add: PMDP_FRAME_DATA_fields_def length_write_V1 length_write_V2 del: sizeof.simps(6))

lemma length_write_FRAME:
  "length (Application (data1 f)) = MAX_PATH \<Longrightarrow>
   length (write_PMDP_FRAME_DATA MAX_PATH f) = sizeof (C_struct (PMDP_FRAME_DATA_fields MAX_PATH))"
  unfolding write_PMDP_FRAME_DATA_def
  by (rule length_struct_image) (rule FRAME_fit)

lemma FRAME_round_trip:
  assumes "length (Application (data1 f)) = MAX_PATH"
  shows "read_PMDP_FRAME_DATA MAX_PATH (write_PMDP_FRAME_DATA MAX_PATH f) = f"
proof -
  let ?items = "[write_PM_FRAME_DATA_V1 MAX_PATH (data1 f), write_PM_FRAME_DATA_V2 (data2 f)]"
  let ?fs = "PMDP_FRAME_DATA_fields MAX_PATH"
  have dist: "distinct (map fst ?fs)"
    by (simp add: PMDP_FRAME_DATA_fields_def)
  have "map (load_field ?fs (struct_image ?fs ?items)) (map fst ?fs) = ?items"
    by (rule load_struct_image [OF FRAME_fit [OF assms] dist])
  then have "map (load_field ?fs (write_PMDP_FRAME_DATA MAX_PATH f)) [''data1'', ''data2'']
             = ?items"
    unfolding write_PMDP_FRAME_DATA_def by (simp add: PMDP_FRAME_DATA_fields_def)
  then show ?thesis
    by (simp add: read_PMDP_FRAME_DATA_def Let_def V1_round_trip [OF assms] V2_round_trip)
qed

lemma load_store_bytes:
  "off + length v \<le> length mem \<Longrightarrow> load_bytes off (length v) (store_bytes off v mem) = v"
  by (simp add: load_bytes_def store_bytes_def)

lemma slot_offset_eq:
  "slot_offset MAX_PATH i =
     (if i < 8192 then Some (32 + i * sizeof (C_struct (PMDP_FRAME_DATA_fields MAX_PATH)))
      else None)"
  using FRAME_align [of MAX_PATH]
  by (simp add: slot_offset_def PMDP_SHARED_MEMORY_fields_def round_up_def [of 4]
      round_up_def [of 8 32] del: sizeof.simps(6))

lemma load_store_frame:
  assumes wf: "length (Application (data1 f)) = MAX_PATH"
    and i: "i < 8192"
    and mem: "length mem = sizeof (C_struct (PMDP_SHARED_MEMORY_fields MAX_PATH))"
  shows "\<exists>mem'. store_frame MAX_PATH i f mem = Some mem' \<and> load_frame MAX_PATH i mem' = Some f"
proof -
  let ?F = "sizeof (C_struct (PMDP_FRAME_DATA_fields MAX_PATH))"
  let ?img = "write_PMDP_FRAME_DATA MAX_PATH f"
  let ?off = "32 + i * ?F"
  have len: "length ?img = ?F" by (rule length_write_FRAME [OF wf])
  have "(i + 1) * ?F \<le> 8192 * ?F" using i by (intro mult_le_mono1) simp
  then have fits: "?off + length ?img \<le> length mem"
    unfolding mem HEADER_size len by simp
  have st: "store_frame MAX_PATH i f mem = Some (store_bytes ?off ?img mem)"
    using i mem by (simp add: store_frame_def slot_offset_eq del: sizeof.simps(6))
  have l': "length (store_bytes ?off ?img mem) = length mem"
    using fits by (simp add: store_bytes_def)
  have "load_bytes ?off ?F (store_bytes ?off ?img mem) = ?img"
    using load_store_bytes [OF fits] unfolding len .
  then have "load_frame MAX_PATH i (store_bytes ?off ?img mem) = Some f"
    using i mem l' FRAME_round_trip [OF wf]
    by (simp add: load_frame_def slot_offset_eq del: sizeof.simps(6))
  with st show ?thesis by simp
qed

lemma c_string_length:
  "c_string buf = Some name \<Longrightarrow> length name < length buf"
proof -
  assume "c_string buf = Some name"
  then have z: "0 \<in> set buf" and n: "name = takeWhile (\<lambda>c. c \<noteq> 0) buf"
    by (auto simp: c_string_def split: if_splits)
  from z have "length (takeWhile (\<lambda>c. c \<noteq> 0) buf) < length buf"
    by (induction buf) auto
  with n show ?thesis by simp
qed

lemma c_string_padded:
  "0 \<notin> set name \<Longrightarrow> length name < n \<Longrightarrow>
   c_string (name @ replicate (n - length name) 0) = Some name"
  by (auto simp: c_string_def takeWhile_append2 takeWhile_replicate intro!: takeWhile_eq_all_conv[THEN iffD2]
      simp: takeWhile_append)

section \<open>Signature, version and ring counters\<close>

lemma make_version_or:
  "make_version major minor = push_bit 16 (ucast major) OR ucast minor"
  unfolding make_version_def
proof (rule disjunctive_add_eq_or)
  show "push_bit 16 (ucast major :: 32 word) AND ucast minor = 0"
    by (rule bit_word_eqI) (auto simp: bit_simps dest: bit_imp_le_length)
qed

lemma version_major_make: "version_major (make_version major minor) = major"
  unfolding version_major_def make_version_or
  by (rule bit_word_eqI) (auto simp: bit_simps dest: bit_imp_le_length)

lemma version_minor_make: "version_minor (make_version major minor) = minor"
  unfolding version_minor_def make_version_or
  by (rule bit_word_eqI) (auto simp: bit_simps dest: bit_imp_le_length)

lemma version_major_1: "(version_major v = 1) = (0x00010000 \<le> v \<and> v \<le> 0x0001FFFF)"
proof -
  have a: "unat (drop_bit 16 v) = unat v div 65536"
    unfolding unat_drop_bit_eq by (simp add: drop_bit_eq_div)
  have lt: "unat v < 4294967296" using unsigned_less [of v, where 'a=nat] by simp
  have "(version_major v = 1) = (unat (version_major v) = 1)"
    by (metis unat_1 word_unat_eq_iff)
  also have "unat (version_major v) = unat v div 65536"
  proof -
    have "unat (version_major v) = take_bit 16 (unat (drop_bit 16 v))"
      unfolding version_major_def using unsigned_ucast_eq [of "drop_bit 16 v", where 'c=16 and 'a=nat] by simp
    also have "\<dots> = (unat v div 65536) mod 65536"
      unfolding a by (simp add: take_bit_eq_mod)
    also have "\<dots> = unat v div 65536" using lt by simp
    finally show ?thesis .
  qed
  also have "(unat v div 65536 = 1) = (65536 \<le> unat v \<and> unat v \<le> 131071)"
  proof -
    have g: "(x = 1) = (1 \<le> x \<and> x < 2)" for x :: nat by auto
    have p: "(0::nat) < 65536" by simp
    have "(1 \<le> unat v div 65536) = (1 * 65536 \<le> unat v)"
      by (rule less_eq_div_iff_mult_less_eq [OF p])
    moreover have "(unat v div 65536 < 2) = (unat v < 2 * 65536)"
      by (rule div_less_iff_less_mult [OF p])
    moreover have "(n < 131072) = (n \<le> 131071)" for n :: nat by linarith
    ultimately show ?thesis unfolding g [of "unat v div 65536"] by simp
  qed
  also have "\<dots> = (0x00010000 \<le> v \<and> v \<le> 0x0001FFFF)"
    by (simp add: word_le_nat_alt)
  finally show ?thesis .
qed

lemma VALID_MAGIC_value: "VALID_MAGIC = 0x504D4450"
  by (simp add: VALID_MAGIC_def multichar_def)

lemma magics_differ: "TEARDOWN_MAGIC \<noteq> VALID_MAGIC"
  by (simp add: VALID_MAGIC_value TEARDOWN_MAGIC_def)

lemma signature_state_Valid: "(signature_state s = Valid) = (s = VALID_MAGIC)"
  by (simp add: signature_state_def)

lemma signature_state_TornDown: "(signature_state s = TornDown) = (s = TEARDOWN_MAGIC)"
  using magics_differ by (auto simp: signature_state_def)

lemma signature_state_NotReady:
  "(signature_state s = NotReady) = (s \<noteq> VALID_MAGIC \<and> s \<noteq> TEARDOWN_MAGIC)"
  by (simp add: signature_state_def)

lemma validate_OK: "(validate M h = OK) = (dwSignature h = VALID_MAGIC \<and> version_major (dwVersion h) = M)"
  by (auto simp: validate_def signature_state_Valid [symmetric] split: region_state.splits)

lemma validate_signature_only:
  "dwSignature h \<noteq> VALID_MAGIC \<Longrightarrow> validate M h = IncompatibleSignature (signature_state (dwSignature h))"
  by (auto simp: validate_def signature_state_Valid [symmetric] split: region_state.splits)

lemma validate_teardown: "validate M (teardown h) = IncompatibleSignature TornDown"
  using magics_differ by (simp add: validate_signature_only teardown_def signature_state_def)

lemma unat_cursor:
  "n < 4294967296 \<Longrightarrow> unat (of_nat n :: 32 word) = n"
  by (simp add: unat_of_nat)

lemma appendFrame_Some:
  "unat (dwFramePos h) < capacity h \<Longrightarrow>
   appendFrame r h = Some (advance_cursor (bump_count (store_record r h)))"
  by (simp add: appendFrame_def appendFrame_steps_def)

lemma appendFrame_None:
  "\<not> unat (dwFramePos h) < capacity h \<Longrightarrow> appendFrame r h = None"
  by (simp add: appendFrame_def)

lemma capacity_step [simp]:
  "capacity (advance_cursor (bump_count (store_record r h))) = capacity h"
  by (simp add: capacity_def advance_cursor_def bump_count_def store_record_def)

lemma count_step [simp]:
  "dwFrameCount (advance_cursor (bump_count (store_record r h))) = dwFrameCount h + 1"
  by (simp add: advance_cursor_def bump_count_def store_record_def)

lemma signature_step [simp]:
  "dwSignature (advance_cursor (bump_count (store_record r h))) = dwSignature h"
  by (simp add: advance_cursor_def bump_count_def store_record_def)

lemma cursor_step:
  "0 < capacity h \<Longrightarrow> capacity h < 4294967296 \<Longrightarrow>
   unat (dwFramePos (advance_cursor (bump_count (store_record r h))))
     = (unat (dwFramePos h) + 1) mod capacity h"
proof -
  assume c: "0 < capacity h" "capacity h < 4294967296"
  have "(unat (dwFramePos h) + 1) mod capacity h < capacity h" using c by simp
  then have "(unat (dwFramePos h) + 1) mod capacity h < 4294967296" using c by linarith
  then show ?thesis
    by (simp add: advance_cursor_def bump_count_def store_record_def capacity_def unat_cursor)
qed

lemma appendFrames_counters:
  "unat (dwFramePos h) < capacity h \<Longrightarrow> capacity h < 4294967296 \<Longrightarrow>
   \<exists>h'. appendFrames rs h = Some h'
     \<and> capacity h' = capacity h
     \<and> dwFrameCount h' = dwFrameCount h + of_nat (length rs)
     \<and> unat (dwFramePos h') = (unat (dwFramePos h) + length rs) mod capacity h"
proof (induction rs arbitrary: h)
  case Nil
  then show ?case by simp
next
  case (Cons r rs)
  let ?h1 = "advance_cursor (bump_count (store_record r h))"
  have pos: "0 < capacity h" using Cons.prems(1) by linarith
  have cur: "unat (dwFramePos ?h1) = (unat (dwFramePos h) + 1) mod capacity h"
    by (rule cursor_step [OF pos Cons.prems(2)])
  then have r1: "unat (dwFramePos ?h1) < capacity ?h1" using pos by simp
  have r2: "capacity ?h1 < 4294967296" using Cons.prems(2) by simp
  from Cons.IH [OF r1 r2] obtain h' where h':
    "appendFrames rs ?h1 = Some h'" "capacity h' = capacity ?h1"
    "dwFrameCount h' = dwFrameCount ?h1 + of_nat (length rs)"
    "unat (dwFramePos h') = (unat (dwFramePos ?h1) + length rs) mod capacity ?h1"
    by blast
  have m: "((unat (dwFramePos h) + 1) mod capacity h + length rs) mod capacity h
           = (unat (dwFramePos h) + length (r # rs)) mod capacity h"
    by (simp add: mod_add_left_eq add.assoc)
  have "appendFrames (r # rs) h = Some h'"
    using h'(1) by (simp add: appendFrame_Some [OF Cons.prems(1)])
  moreover have "capacity h' = capacity h" using h'(2) by simp
  moreover have "dwFrameCount h' = dwFrameCount h + of_nat (length (r # rs))"
    using h'(3) by simp
  moreover have "unat (dwFramePos h') = (unat (dwFramePos h) + length (r # rs)) mod capacity h"
    using h'(4) cur m by simp
  ultimately show ?case by blast
qed

lemma appendFrames_signature:
  "appendFrames rs h = Some h' \<Longrightarrow> dwSignature h' = dwSignature h"
proof (induction rs arbitrary: h)
  case Nil
  then show ?case by simp
next
  case (Cons r rs)
  show ?case
  proof (cases "unat (dwFramePos h) < capacity h")
    case True
    with Cons.prems have "appendFrames rs (advance_cursor (bump_count (store_record r h))) = Some h'"
      by (simp add: appendFrame_Some)
    from Cons.IH [OF this] show ?thesis by simp
  next
    case False
    with Cons.prems show ?thesis by (simp add: appendFrame_None)
  qed
qed

lemma initialize_fields:
  "dwFrameCount (initialize MAX_PATH cap es) = 0"
  "dwFramePos (initialize MAX_PATH cap es) = 0"
  "capacity (initialize MAX_PATH cap es) = cap"
  "dwSignature (initialize MAX_PATH cap es) = VALID_MAGIC"
  "dwVersion (initialize MAX_PATH cap es) = make_version 1 0"
  by (simp_all add: initialize_def capacity_def)

lemma appendFrames_initialize:
  assumes "0 < cap" and "cap < 4294967296"
  shows "\<exists>h'. appendFrames rs (initialize MAX_PATH cap es) = Some h'
     \<and> dwFrameCount h' = of_nat (length rs)
     \<and> unat (dwFramePos h') = length rs mod cap"
  using appendFrames_counters [of "initialize MAX_PATH cap es" rs] assms
  by (auto simp: initialize_fields)

lemma appendFrame_steps_fields:
  "map arrFrame (appendFrame_steps r h) =
     [(arrFrame h)[unat (dwFramePos h) := r], (arrFrame h)[unat (dwFramePos h) := r],
      (arrFrame h)[unat (dwFramePos h) := r]]"
  "map dwFrameCount (appendFrame_steps r h) =
     [dwFrameCount h, dwFrameCount h + 1, dwFrameCount h + 1]"
  "map dwFramePos (appendFrame_steps r h) =
     [dwFramePos h, dwFramePos h, of_nat ((unat (dwFramePos h) + 1) mod capacity h)]"
  by (simp_all add: appendFrame_steps_def advance_cursor_def bump_count_def store_record_def
      capacity_def)

lemma unat_of_nat_32: "unat (of_nat n :: 32 word) = n mod 4294967296"
  by (simp add: unat_of_nat)

section \<open>The layout of the shared region\<close>

text \<open>
  Claim C1. The shared region of version 1 is, in declaration order, eight 32-bit
  fields (signature, version, entry size, offset of the entry array, size of the entry
  array, frame count, frame position, status) followed by the ring array of frame
  records. Each 32-bit field sits at the next multiple of four (offsets 0 to 28, with no
  padding between them), every offset is a multiple of its member's alignment, the
  array starts at offset 32, and its 8192 entries all have the size of one frame record.
\<close>

theorem C1_shared_memory_layout:
  "map fst (PMDP_SHARED_MEMORY_fields MAX_PATH) =
     [''dwSignature'', ''dwVersion'', ''dwFrameArrEntrySize'', ''dwFrameArrOffset'',
      ''dwFrameArrSize'', ''dwFrameCount'', ''dwFramePos'', ''dwStatus'', ''arrFrame'']
   \<and> map snd (PMDP_SHARED_MEMORY_fields MAX_PATH) =
     [C_DWORD, C_DWORD, C_DWORD, C_DWORD, C_DWORD, C_DWORD, C_DWORD, C_DWORD,
      C_array (C_struct (PMDP_FRAME_DATA_fields MAX_PATH)) 8192]
   \<and> 8 * sizeof C_DWORD = 32
   \<and> field_offsets 0 (PMDP_SHARED_MEMORY_fields MAX_PATH) = [0, 4, 8, 12, 16, 20, 24, 28, 32]
   \<and> map2 (\<lambda>off (nm, t). off mod alignof t)
        (field_offsets 0 (PMDP_SHARED_MEMORY_fields MAX_PATH))
        (PMDP_SHARED_MEMORY_fields MAX_PATH) = [0, 0, 0, 0, 0, 0, 0, 0, 0]
   \<and> sizeof (C_array (C_struct (PMDP_FRAME_DATA_fields MAX_PATH)) 8192) =
       8192 * sizeof (C_struct (PMDP_FRAME_DATA_fields MAX_PATH))
   \<and> sizeof (C_struct (PMDP_SHARED_MEMORY_fields MAX_PATH)) =
       32 + 8192 * sizeof (C_struct (PMDP_FRAME_DATA_fields MAX_PATH))"
proof -
  have names: "map fst (PMDP_SHARED_MEMORY_fields MAX_PATH) =
     [''dwSignature'', ''dwVersion'', ''dwFrameArrEntrySize'', ''dwFrameArrOffset'',
      ''dwFrameArrSize'', ''dwFrameCount'', ''dwFramePos'', ''dwStatus'', ''arrFrame'']"
    by (simp add: PMDP_SHARED_MEMORY_fields_def)
  have types: "map snd (PMDP_SHARED_MEMORY_fields MAX_PATH) =
     [C_DWORD, C_DWORD, C_DWORD, C_DWORD, C_DWORD, C_DWORD, C_DWORD, C_DWORD,
      C_array (C_struct (PMDP_FRAME_DATA_fields MAX_PATH)) 8192]"
    by (simp add: PMDP_SHARED_MEMORY_fields_def)
  have aligned: "map2 (\<lambda>off (nm, t). off mod alignof t)
        (field_offsets 0 (PMDP_SHARED_MEMORY_fields MAX_PATH))
        (PMDP_SHARED_MEMORY_fields MAX_PATH) = [0, 0, 0, 0, 0, 0, 0, 0, 0]"
    unfolding HEADER_offsets using FRAME_align [of MAX_PATH]
    by (simp add: PMDP_SHARED_MEMORY_fields_def)
  have arr: "sizeof (C_array (C_struct (PMDP_FRAME_DATA_fields MAX_PATH)) 8192) =
       8192 * sizeof (C_struct (PMDP_FRAME_DATA_fields MAX_PATH))"
    by (simp del: sizeof.simps(6))
  show ?thesis
    using names types aligned arr HEADER_offsets [of MAX_PATH] HEADER_size [of MAX_PATH]
    by (simp only: simp_thms sizeof.simps(2))
qed

text \<open>
  Claim C2. A frame record written into a slot and read back through the offsets of the
  declarations is the record that was written: for the bytes of one record, and for
  slot \<open>i\<close> of the ring array inside the bytes of the region. The base members come in
  the order of the declaration (application name, process id, swap-chain address,
  runtime, sync interval, present flags, dropped flag, time in seconds, the
  millisecond latencies with the tearing flag and the present mode among them, the
  query timestamp, the input latency and the GPU and video activity) at strictly
  growing offsets; the extended members follow at multiples of eight; and the
  extended sub-record starts where the last base member ends, with no padding between
  the two, at a multiple of its own alignment.
\<close>

theorem C2_frame_record_round_trip:
  assumes "length (Application (data1 f)) = MAX_PATH"
    and "i < 8192"
    and "length mem = sizeof (C_struct (PMDP_SHARED_MEMORY_fields MAX_PATH))"
  shows "read_PMDP_FRAME_DATA MAX_PATH (write_PMDP_FRAME_DATA MAX_PATH f) = f
   \<and> Option.bind (store_frame MAX_PATH i f mem) (load_frame MAX_PATH i) = Some f
   \<and> map fst (PM_FRAME_DATA_V1_fields MAX_PATH) =
     [''Application'', ''ProcessID'', ''SwapChainAddress'', ''Runtime'', ''SyncInterval'',
      ''PresentFlags'', ''Dropped'', ''TimeInSeconds'', ''msInPresentAPI'',
      ''msBetweenPresents'', ''AllowsTearing'', ''PresentMode'', ''msUntilRenderComplete'',
      ''msUntilDisplayed'', ''msBetweenDisplayChange'', ''msUntilRenderStart'', ''qpcTime'',
      ''msSinceInput'', ''msGpuActive'', ''msGpuVideoActive'']
   \<and> map fst PM_FRAME_DATA_V2_fields =
     [''CPUStart'', ''Frametime'', ''CPUBusy'', ''CPUWait'', ''GPULatency'', ''GPUTime'',
      ''GPUBusy'', ''VideoBusy'', ''GPUWait'', ''DisplayLatency'', ''DisplayedTime'',
      ''AnimationError'', ''ClickToPhotonLatency'']
   \<and> field_offsets 0 (PM_FRAME_DATA_V1_fields MAX_PATH) =
     (let B = round_up 8 (round_up 4 MAX_PATH + 4) in
      [0, round_up 4 MAX_PATH, B, B + 8, B + 12, B + 16, B + 20, B + 24, B + 32, B + 40,
       B + 48, B + 52, B + 56, B + 64, B + 72, B + 80, B + 88, B + 96, B + 104, B + 112])
   \<and> field_offsets 0 PM_FRAME_DATA_V2_fields =
     [0, 8, 16, 24, 32, 40, 48, 56, 64, 72, 80, 88, 96]
   \<and> field_offsets 0 (PMDP_FRAME_DATA_fields MAX_PATH) =
     [0, round_up 8 (round_up 4 MAX_PATH + 4) + 112 + sizeof C_double]
   \<and> (round_up 8 (round_up 4 MAX_PATH + 4) + 112 + sizeof C_double)
        mod alignof (C_struct PM_FRAME_DATA_V2_fields) = 0"
proof -
  have al: "(round_up 8 (round_up 4 MAX_PATH + 4) + 112 + sizeof C_double)
        mod alignof (C_struct PM_FRAME_DATA_V2_fields) = 0"
    using round_up_dvd [of 8 "round_up 4 MAX_PATH + 4"]
    by (simp add: V2_align mod_eq_0_iff_dvd)
  have rt: "read_PMDP_FRAME_DATA MAX_PATH (write_PMDP_FRAME_DATA MAX_PATH f) = f"
    by (rule FRAME_round_trip [OF assms(1)])
  from load_store_frame [OF assms]
  have slot: "Option.bind (store_frame MAX_PATH i f mem) (load_frame MAX_PATH i) = Some f"
    by auto
  have n1: "map fst (PM_FRAME_DATA_V1_fields MAX_PATH) =
     [''Application'', ''ProcessID'', ''SwapChainAddress'', ''Runtime'', ''SyncInterval'',
      ''PresentFlags'', ''Dropped'', ''TimeInSeconds'', ''msInPresentAPI'',
      ''msBetweenPresents'', ''AllowsTearing'', ''PresentMode'', ''msUntilRenderComplete'',
      ''msUntilDisplayed'', ''msBetweenDisplayChange'', ''msUntilRenderStart'', ''qpcTime'',
      ''msSinceInput'', ''msGpuActive'', ''msGpuVideoActive'']"
    by (simp add: PM_FRAME_DATA_V1_fields_def)
  have n2: "map fst PM_FRAME_DATA_V2_fields =
     [''CPUStart'', ''Frametime'', ''CPUBusy'', ''CPUWait'', ''GPULatency'', ''GPUTime'',
      ''GPUBusy'', ''VideoBusy'', ''GPUWait'', ''DisplayLatency'', ''DisplayedTime'',
      ''AnimationError'', ''ClickToPhotonLatency'']"
    by (simp add: PM_FRAME_DATA_V2_fields_def)
  have o3: "field_offsets 0 (PMDP_FRAME_DATA_fields MAX_PATH) =
     [0, round_up 8 (round_up 4 MAX_PATH + 4) + 112 + sizeof C_double]"
    unfolding FRAME_offsets V1_size by simp
  show ?thesis
    by (intro conjI rt slot n1 n2 V1_offsets V2_offsets o3 al)
qed

theorem C2_frame_record_round_trip_witness:
  "length (Application (data1 ((zero_frame 260)\<lparr>data2 := (data2 (zero_frame 260))\<lparr>CPUStart := 123456789\<rparr>\<rparr>))) = 260
   \<and> (5::nat) < 8192
   \<and> length (replicate (sizeof (C_struct (PMDP_SHARED_MEMORY_fields 260))) (0::byte))
       = sizeof (C_struct (PMDP_SHARED_MEMORY_fields 260))
   \<and> read_PMDP_FRAME_DATA 260 (write_PMDP_FRAME_DATA 260
        ((zero_frame 260)\<lparr>data2 := (data2 (zero_frame 260))\<lparr>CPUStart := 123456789\<rparr>\<rparr>))
       = (zero_frame 260)\<lparr>data2 := (data2 (zero_frame 260))\<lparr>CPUStart := 123456789\<rparr>\<rparr>
   \<and> Option.bind
        (store_frame 260 5
          ((zero_frame 260)\<lparr>data2 := (data2 (zero_frame 260))\<lparr>CPUStart := 123456789\<rparr>\<rparr>)
          (replicate (sizeof (C_struct (PMDP_SHARED_MEMORY_fields 260))) 0))
        (load_frame 260 5)
       = Some ((zero_frame 260)\<lparr>data2 := (data2 (zero_frame 260))\<lparr>CPUStart := 123456789\<rparr>\<rparr>)
   \<and> field_offsets 0 (PMDP_FRAME_DATA_fields 260) = [0, 384]"
proof -
  let ?f = "(zero_frame 260)\<lparr>data2 := (data2 (zero_frame 260))\<lparr>CPUStart := 123456789\<rparr>\<rparr>"
  let ?mem = "replicate (sizeof (C_struct (PMDP_SHARED_MEMORY_fields 260))) (0::byte)"
  have h1: "length (Application (data1 ?f)) = 260" by (simp add: zero_frame_def)
  have h2: "(5::nat) < 8192" by simp
  have h3: "length ?mem = sizeof (C_struct (PMDP_SHARED_MEMORY_fields 260))"
    by (simp only: length_replicate)
  have r: "round_up 8 (round_up 4 260 + 4) + 112 + sizeof C_double = 384"
    by (simp add: round_up_def)
  show ?thesis
    using C2_frame_record_round_trip [OF h1 h2 h3] h1 h3 unfolding r
    by (simp only: simp_thms h2)
qed

text \<open>
  Claim C10. The base sub-record is the first member of a frame record and the
  \<open>MAX_PATH\<close>-character application name is its first member, at offset 0. The size
  of a frame record depends on \<open>MAX_PATH\<close> alone, and the bytes of every record have
  that size, whatever name the buffer holds. A string held by a buffer of \<open>MAX_PATH\<close>
  characters has at most \<open>MAX_PATH - 1\<close> characters; every name of that length or
  less (with no NUL inside) is held by the buffer that pads it with NULs; no buffer
  holds a longer name.
\<close>

theorem C10_application_buffer:
  "field_lookup 0 (PMDP_FRAME_DATA_fields MAX_PATH) ''data1''
     = Some (0, C_struct (PM_FRAME_DATA_V1_fields MAX_PATH))
   \<and> field_lookup 0 (PM_FRAME_DATA_V1_fields MAX_PATH) ''Application''
     = Some (0, C_char_array MAX_PATH)
   \<and> sizeof (C_char_array MAX_PATH) = MAX_PATH
   \<and> sizeof (C_struct (PMDP_FRAME_DATA_fields MAX_PATH))
     = round_up 8 (round_up 4 MAX_PATH + 4) + 224
   \<and> (length (Application (data1 f)) = MAX_PATH \<longrightarrow>
        length (write_PMDP_FRAME_DATA MAX_PATH f)
          = sizeof (C_struct (PMDP_FRAME_DATA_fields MAX_PATH)))
   \<and> (length buf = MAX_PATH \<and> c_string buf = Some name \<longrightarrow> length name \<le> MAX_PATH - 1)
   \<and> (0 \<notin> set short \<and> length short \<le> MAX_PATH - 1 \<and> 0 < MAX_PATH \<longrightarrow>
        length (short @ replicate (MAX_PATH - length short) 0) = MAX_PATH
        \<and> c_string (short @ replicate (MAX_PATH - length short) 0) = Some short)
   \<and> (MAX_PATH - 1 < length long \<and> length buf' = MAX_PATH \<longrightarrow> c_string buf' \<noteq> Some long)"
proof -
  have a: "field_lookup 0 (PMDP_FRAME_DATA_fields MAX_PATH) ''data1''
     = Some (0, C_struct (PM_FRAME_DATA_V1_fields MAX_PATH))"
    by (simp add: PMDP_FRAME_DATA_fields_def V1_align round_up_def)
  have b: "field_lookup 0 (PM_FRAME_DATA_V1_fields MAX_PATH) ''Application''
     = Some (0, C_char_array MAX_PATH)"
    by (simp add: PM_FRAME_DATA_V1_fields_def round_up_def)
  have c: "sizeof (C_char_array MAX_PATH) = MAX_PATH" by simp
  have e: "length (Application (data1 f)) = MAX_PATH \<longrightarrow>
        length (write_PMDP_FRAME_DATA MAX_PATH f)
          = sizeof (C_struct (PMDP_FRAME_DATA_fields MAX_PATH))"
    using length_write_FRAME [of f MAX_PATH] by blast
  have g: "length buf = MAX_PATH \<and> c_string buf = Some name \<longrightarrow> length name \<le> MAX_PATH - 1"
    using c_string_length [of buf name] by auto
  have h: "0 \<notin> set short \<and> length short \<le> MAX_PATH - 1 \<and> 0 < MAX_PATH \<longrightarrow>
        length (short @ replicate (MAX_PATH - length short) 0) = MAX_PATH
        \<and> c_string (short @ replicate (MAX_PATH - length short) 0) = Some short"
    using c_string_padded [of short MAX_PATH] by auto
  have k: "MAX_PATH - 1 < length long \<and> length buf' = MAX_PATH \<longrightarrow> c_string buf' \<noteq> Some long"
    using c_string_length [of buf' long] by auto
  show ?thesis
    using a b c e g h k FRAME_size [of MAX_PATH] by (simp only: simp_thms)
qed

theorem C10_application_buffer_witness:
  "length (Application (data1 (zero_frame 260))) = 260
   \<and> length (write_PMDP_FRAME_DATA 260 (zero_frame 260)) = 488
   \<and> length ([103, 97, 109, 101, 0] @ replicate 255 (0::byte)) = 260
   \<and> c_string ([103, 97, 109, 101, 0] @ replicate 255 (0::byte)) = Some [103, 97, 109, 101]
   \<and> length [103, 97, 109, 101 :: byte] \<le> 260 - 1
   \<and> c_string ([103, 97, 109, 101] @ replicate (260 - length [103, 97, 109, 101 :: byte]) 0)
       = Some [103, 97, 109, 101 :: byte]
   \<and> 260 - 1 < length (replicate 260 (65::byte))
   \<and> c_string ([103, 97, 109, 101, 0] @ replicate 255 (0::byte)) \<noteq> Some (replicate 260 65)"
proof -
  let ?buf = "[103, 97, 109, 101, 0] @ replicate 255 (0::byte)"
  let ?name = "[103, 97, 109, 101 :: byte]"
  have h1: "length (Application (data1 (zero_frame 260))) = 260" by (simp add: zero_frame_def)
  have h2: "length ?buf = 260" by simp
  have h3: "c_string ?buf = Some ?name" by (simp add: c_string_def)
  have h4: "0 \<notin> set ?name \<and> length ?name \<le> 260 - 1 \<and> (0::nat) < 260" by simp
  have h5: "260 - 1 < length (replicate 260 (65::byte))" by simp
  note inst = C10_application_buffer [of 260 "zero_frame 260" ?buf ?name ?name "replicate 260 65" ?buf]
  from inst h1 have c1: "length (write_PMDP_FRAME_DATA 260 (zero_frame 260)) = 488"
    by (simp only: FRAME_size_260)
  from inst h4 have c2: "c_string (?name @ replicate (260 - length ?name) 0) = Some ?name"
    by blast
  from inst h5 h2 have c3: "c_string ?buf \<noteq> Some (replicate 260 65)" by blast
  from h4 have h4': "length ?name \<le> 260 - 1" by blast
  show ?thesis using h1 c1 h2 h3 h4' c2 h5 c3 by (simp only: simp_thms)
qed

section \<open>The header protocol\<close>

text \<open>
  Claim C3. The signature has exactly three readings: \<^verbatim>\<open>'PMDP'\<close> (the number
  0x504D4450) means the region is initialized and holds valid data, 0xDEAD means it is
  torn down, and every other value means it is not ready. A reader accepts a region
  only under the valid signature, and under any other signature the reader's verdict
  depends on the signature alone: no other header field, and not even the major
  version the reader expects, changes it.
\<close>

theorem C3_signature_classes:
  "VALID_MAGIC = 0x504D4450
   \<and> TEARDOWN_MAGIC = 0xDEAD
   \<and> (signature_state s = Valid) = (s = VALID_MAGIC)
   \<and> (signature_state s = TornDown) = (s = TEARDOWN_MAGIC)
   \<and> (signature_state s = NotReady) = (s \<noteq> VALID_MAGIC \<and> s \<noteq> TEARDOWN_MAGIC)
   \<and> (validate M h = OK \<longrightarrow> dwSignature h = VALID_MAGIC)
   \<and> (dwSignature h \<noteq> VALID_MAGIC \<and> dwSignature h' = dwSignature h \<longrightarrow>
        validate M h = validate M' h')"
proof -
  have a: "validate M h = OK \<longrightarrow> dwSignature h = VALID_MAGIC"
    by (simp add: validate_OK)
  have b: "dwSignature h \<noteq> VALID_MAGIC \<and> dwSignature h' = dwSignature h \<longrightarrow>
        validate M h = validate M' h'"
    using validate_signature_only [of h M] validate_signature_only [of h' M'] by auto
  show ?thesis
    by (intro conjI VALID_MAGIC_value TEARDOWN_MAGIC_def signature_state_Valid
        signature_state_TornDown signature_state_NotReady a b)
qed

theorem C3_signature_classes_witness:
  "signature_state 0x504D4450 = Valid
   \<and> signature_state 0xDEAD = TornDown
   \<and> signature_state 0 = NotReady
   \<and> validate 1 (initialize 260 4 488) = OK
   \<and> dwSignature (initialize 260 4 488) = VALID_MAGIC
   \<and> dwSignature ((initialize 260 4 488)\<lparr>dwSignature := 7\<rparr>) \<noteq> VALID_MAGIC
   \<and> dwSignature ((initialize 260 8 488)\<lparr>dwSignature := 7, dwVersion := 0x00020005\<rparr>)
       = dwSignature ((initialize 260 4 488)\<lparr>dwSignature := 7\<rparr>)
   \<and> validate 1 ((initialize 260 4 488)\<lparr>dwSignature := 7\<rparr>)
       = validate 2 ((initialize 260 8 488)\<lparr>dwSignature := 7, dwVersion := 0x00020005\<rparr>)"
proof -
  let ?h = "(initialize 260 4 488)\<lparr>dwSignature := 7\<rparr>"
  let ?h' = "(initialize 260 8 488)\<lparr>dwSignature := 7, dwVersion := 0x00020005\<rparr>"
  have ok: "validate 1 (initialize 260 4 488) = OK"
    by (simp add: validate_OK initialize_fields version_major_make)
  have h1: "dwSignature ?h \<noteq> VALID_MAGIC" by (simp add: VALID_MAGIC_value)
  have h2: "dwSignature ?h' = dwSignature ?h" by simp
  have s0: "(0 :: 32 word) \<noteq> VALID_MAGIC \<and> (0 :: 32 word) \<noteq> TEARDOWN_MAGIC"
    by (simp add: VALID_MAGIC_value TEARDOWN_MAGIC_def)
  have v: "(0x504D4450 :: 32 word) = VALID_MAGIC" by (simp add: VALID_MAGIC_value)
  have t: "(0xDEAD :: 32 word) = TEARDOWN_MAGIC" by (simp add: TEARDOWN_MAGIC_def)
  from C3_signature_classes [where s = "0x504D4450"] v
  have c1: "signature_state 0x504D4450 = Valid" by blast
  from C3_signature_classes [where s = "0xDEAD"] t
  have c2: "signature_state 0xDEAD = TornDown" by blast
  from C3_signature_classes [where s = 0] s0
  have c3: "signature_state 0 = NotReady" by blast
  from C3_signature_classes [where M = 1 and h = "initialize 260 4 488"] ok
  have c4: "dwSignature (initialize 260 4 488) = VALID_MAGIC" by blast
  from C3_signature_classes [where M = 1 and h = ?h and h' = ?h' and M' = 2] h1 h2
  have c5: "validate 1 ?h = validate 2 ?h'" by blast
  show ?thesis using c1 c2 c3 ok c4 h1 h2 c5 by (simp only: simp_thms)
qed

text \<open>
  Claim C4, as amended. The version is \<open>(major << 16) + minor\<close>, and a version has
  major 1 exactly when it reads 0x0001xxxx. For every header whose signature is the
  valid magic, a reader compiled against major version \<open>M\<close> answers
  \<open>IncompatibleMajorVersion\<close> when the header's major version differs from \<open>M\<close> and
  accepts the header when it equals \<open>M\<close>, whatever the minor version. A header whose
  signature is not the valid magic is rejected for its signature, whatever its version;
  so every header of another major version is rejected.
\<close>

theorem C4_version_gate:
  "version_major (make_version major minor) = major
   \<and> version_minor (make_version major minor) = minor
   \<and> (version_major v = 1) = (0x00010000 \<le> v \<and> v \<le> 0x0001FFFF)
   \<and> (dwSignature h = VALID_MAGIC \<and> version_major (dwVersion h) \<noteq> M \<longrightarrow>
        validate M h = IncompatibleMajorVersion)
   \<and> (dwSignature h = VALID_MAGIC \<and> version_major (dwVersion h) = M \<longrightarrow>
        validate M h = OK)
   \<and> (dwSignature h \<noteq> VALID_MAGIC \<longrightarrow>
        validate M h = IncompatibleSignature (signature_state (dwSignature h)))
   \<and> (version_major (dwVersion h) \<noteq> M \<longrightarrow> validate M h \<noteq> OK)"
proof -
  have a: "dwSignature h = VALID_MAGIC \<and> version_major (dwVersion h) \<noteq> M \<longrightarrow>
        validate M h = IncompatibleMajorVersion"
    by (simp add: validate_def signature_state_def)
  have b: "dwSignature h = VALID_MAGIC \<and> version_major (dwVersion h) = M \<longrightarrow>
        validate M h = OK"
    by (simp add: validate_OK)
  have c: "dwSignature h \<noteq> VALID_MAGIC \<longrightarrow>
        validate M h = IncompatibleSignature (signature_state (dwSignature h))"
    by (simp add: validate_signature_only)
  have d: "version_major (dwVersion h) \<noteq> M \<longrightarrow> validate M h \<noteq> OK"
    by (simp add: validate_OK)
  show ?thesis
    by (intro conjI version_major_make version_minor_make version_major_1 a b c d)
qed

theorem C4_version_gate_witness:
  "dwSignature ((initialize 260 8192 488)\<lparr>dwVersion := make_version 2 0\<rparr>) = VALID_MAGIC
   \<and> version_major (dwVersion ((initialize 260 8192 488)\<lparr>dwVersion := make_version 2 0\<rparr>)) \<noteq> 1
   \<and> validate 1 ((initialize 260 8192 488)\<lparr>dwVersion := make_version 2 0\<rparr>)
       = IncompatibleMajorVersion
   \<and> version_major (dwVersion ((initialize 260 8192 488)\<lparr>dwVersion := make_version 1 7\<rparr>)) = 1
   \<and> validate 1 ((initialize 260 8192 488)\<lparr>dwVersion := make_version 1 7\<rparr>) = OK
   \<and> dwSignature ((initialize 260 8192 488)\<lparr>dwSignature := 0\<rparr>) \<noteq> VALID_MAGIC
   \<and> validate 1 ((initialize 260 8192 488)\<lparr>dwSignature := 0\<rparr>)
       = IncompatibleSignature (signature_state 0)"
proof -
  let ?h2 = "(initialize 260 8192 488)\<lparr>dwVersion := make_version 2 0\<rparr>"
  let ?h1 = "(initialize 260 8192 488)\<lparr>dwVersion := make_version 1 7\<rparr>"
  let ?h0 = "(initialize 260 8192 488)\<lparr>dwSignature := 0\<rparr>"
  have s2: "dwSignature ?h2 = VALID_MAGIC" by (simp add: initialize_fields)
  have v2: "version_major (dwVersion ?h2) \<noteq> 1" by (simp add: version_major_make)
  have s1: "dwSignature ?h1 = VALID_MAGIC" by (simp add: initialize_fields)
  have v1: "version_major (dwVersion ?h1) = 1" by (simp add: version_major_make)
  have s0: "dwSignature ?h0 \<noteq> VALID_MAGIC" by (simp add: VALID_MAGIC_value)
  from C4_version_gate [where h = ?h2 and M = 1] s2 v2
  have c2: "validate 1 ?h2 = IncompatibleMajorVersion" by blast
  from C4_version_gate [where h = ?h1 and M = 1] s1 v1
  have c1: "validate 1 ?h1 = OK" by blast
  from C4_version_gate [where h = ?h0 and M = 1] s0
  have c0: "validate 1 ?h0 = IncompatibleSignature (signature_state (dwSignature ?h0))" by blast
  then have c0': "validate 1 ?h0 = IncompatibleSignature (signature_state 0)" by simp
  show ?thesis using s2 v2 c2 v1 c1 s0 c0' by (simp only: simp_thms)
qed

text \<open>
  Claim C4 as first stated, for every header, fails on a region that is not ready: its
  signature is 0 and its version field reads major 2; a reader of major 1 answers with
  the signature failure, not with \<open>IncompatibleMajorVersion\<close>.
\<close>

theorem C4_version_gate_counterexample:
  "version_major (dwVersion ((initialize 260 8192 488)\<lparr>dwSignature := 0, dwVersion := make_version 2 0\<rparr>)) \<noteq> 1
   \<and> validate 1 ((initialize 260 8192 488)\<lparr>dwSignature := 0, dwVersion := make_version 2 0\<rparr>)
       = IncompatibleSignature NotReady
   \<and> validate 1 ((initialize 260 8192 488)\<lparr>dwSignature := 0, dwVersion := make_version 2 0\<rparr>)
       \<noteq> IncompatibleMajorVersion"
proof -
  have s0: "(0 :: 32 word) \<noteq> VALID_MAGIC \<and> (0 :: 32 word) \<noteq> TEARDOWN_MAGIC"
    by (simp add: VALID_MAGIC_value TEARDOWN_MAGIC_def)
  then have "signature_state 0 = NotReady" by (simp add: signature_state_NotReady)
  then show ?thesis
    using s0 by (simp add: version_major_make validate_signature_only)
qed

text \<open>
  Claim C5. The status codes are OK = 0, INIT_FAILED = 1, START_FAILED = 2 and
  READ_FAILED = 3, four distinct values. The states "not ready" and "torn down" are
  readings of the signature: they do not depend on the status field, and both occur
  under the status OK.
\<close>

theorem C5_status_codes:
  "PMDP_STATUS_OK = 0
   \<and> PMDP_STATUS_INIT_FAILED = 1
   \<and> PMDP_STATUS_START_STREAM_FAILED = 2
   \<and> PMDP_STATUS_GET_FRAME_DATA_FAILED = 3
   \<and> distinct [PMDP_STATUS_OK, PMDP_STATUS_INIT_FAILED, PMDP_STATUS_START_STREAM_FAILED,
        PMDP_STATUS_GET_FRAME_DATA_FAILED]
   \<and> signature_state (dwSignature (h\<lparr>dwStatus := st\<rparr>)) = signature_state (dwSignature h)
   \<and> signature_state (dwSignature (h\<lparr>dwSignature := 0, dwStatus := PMDP_STATUS_OK\<rparr>)) = NotReady
   \<and> signature_state (dwSignature (h\<lparr>dwSignature := 0xDEAD, dwStatus := PMDP_STATUS_OK\<rparr>)) = TornDown"
proof -
  have s0: "signature_state 0 = NotReady"
    by (simp add: signature_state_NotReady VALID_MAGIC_value TEARDOWN_MAGIC_def)
  have s1: "signature_state 0xDEAD = TornDown"
    by (simp add: signature_state_TornDown TEARDOWN_MAGIC_def)
  show ?thesis
    using s0 s1
    by (simp add: PMDP_STATUS_OK_def PMDP_STATUS_INIT_FAILED_def
        PMDP_STATUS_START_STREAM_FAILED_def PMDP_STATUS_GET_FRAME_DATA_FAILED_def)
qed

text \<open>
  Claim C8, as amended. After \<open>k\<close> appends to a freshly initialized region of capacity
  \<open>cap\<close> (positive, and representable in 32 bits), every append has succeeded, the
  frame count is \<open>k\<close> modulo \<open>2\<^sup>3\<^sup>2\<close> (the field is a \<^verbatim>\<open>DWORD\<close>; it is \<open>k\<close> itself for
  \<open>k < 2\<^sup>3\<^sup>2\<close>) and the write cursor is \<open>k mod cap\<close>. One append makes three writes in
  this order: the record into the slot at the cursor, then the count plus one, then the
  cursor plus one modulo the capacity. After the first write the count and the cursor
  are still the old ones; after the second the cursor is still the old one.
\<close>

theorem C8_append_counters:
  "(0 < cap \<and> cap < 4294967296 \<longrightarrow>
      map_option (unat \<circ> dwFrameCount) (appendFrames rs (initialize MAX_PATH cap es))
        = Some (length rs mod 4294967296)
    \<and> map_option (unat \<circ> dwFramePos) (appendFrames rs (initialize MAX_PATH cap es))
        = Some (length rs mod cap)
    \<and> map_option capacity (appendFrames rs (initialize MAX_PATH cap es)) = Some cap)
   \<and> (unat (dwFramePos h) < capacity h \<and> capacity h < 4294967296 \<longrightarrow>
      appendFrame r h = Some (last (appendFrame_steps r h))
    \<and> map arrFrame (appendFrame_steps r h) =
        [(arrFrame h)[unat (dwFramePos h) := r], (arrFrame h)[unat (dwFramePos h) := r],
         (arrFrame h)[unat (dwFramePos h) := r]]
    \<and> (arrFrame h)[unat (dwFramePos h) := r] ! unat (dwFramePos h) = r
    \<and> map dwFrameCount (appendFrame_steps r h) =
        [dwFrameCount h, dwFrameCount h + 1, dwFrameCount h + 1]
    \<and> map (unat \<circ> dwFramePos) (appendFrame_steps r h) =
        [unat (dwFramePos h), unat (dwFramePos h), (unat (dwFramePos h) + 1) mod capacity h])"
proof -
  have run: "0 < cap \<and> cap < 4294967296 \<longrightarrow>
      map_option (unat \<circ> dwFrameCount) (appendFrames rs (initialize MAX_PATH cap es))
        = Some (length rs mod 4294967296)
    \<and> map_option (unat \<circ> dwFramePos) (appendFrames rs (initialize MAX_PATH cap es))
        = Some (length rs mod cap)
    \<and> map_option capacity (appendFrames rs (initialize MAX_PATH cap es)) = Some cap"
  proof
    assume c: "0 < cap \<and> cap < 4294967296"
    then have "unat (dwFramePos (initialize MAX_PATH cap es)) < capacity (initialize MAX_PATH cap es)"
      and "capacity (initialize MAX_PATH cap es) < 4294967296"
      by (simp_all add: initialize_fields)
    from appendFrames_counters [OF this, of rs]
    obtain h' where h': "appendFrames rs (initialize MAX_PATH cap es) = Some h'"
      "capacity h' = cap" "dwFrameCount h' = of_nat (length rs)"
      "unat (dwFramePos h') = length rs mod cap"
      by (auto simp: initialize_fields)
    then show "map_option (unat \<circ> dwFrameCount) (appendFrames rs (initialize MAX_PATH cap es))
        = Some (length rs mod 4294967296)
    \<and> map_option (unat \<circ> dwFramePos) (appendFrames rs (initialize MAX_PATH cap es))
        = Some (length rs mod cap)
    \<and> map_option capacity (appendFrames rs (initialize MAX_PATH cap es)) = Some cap"
      by (simp add: unat_of_nat_32)
  qed
  have step: "unat (dwFramePos h) < capacity h \<and> capacity h < 4294967296 \<longrightarrow>
      appendFrame r h = Some (last (appendFrame_steps r h))
    \<and> map arrFrame (appendFrame_steps r h) =
        [(arrFrame h)[unat (dwFramePos h) := r], (arrFrame h)[unat (dwFramePos h) := r],
         (arrFrame h)[unat (dwFramePos h) := r]]
    \<and> (arrFrame h)[unat (dwFramePos h) := r] ! unat (dwFramePos h) = r
    \<and> map dwFrameCount (appendFrame_steps r h) =
        [dwFrameCount h, dwFrameCount h + 1, dwFrameCount h + 1]
    \<and> map (unat \<circ> dwFramePos) (appendFrame_steps r h) =
        [unat (dwFramePos h), unat (dwFramePos h), (unat (dwFramePos h) + 1) mod capacity h]"
  proof
    assume v: "unat (dwFramePos h) < capacity h \<and> capacity h < 4294967296"
    then have pos: "0 < capacity h" by linarith
    have "(unat (dwFramePos h) + 1) mod capacity h < capacity h" using pos by simp
    then have small: "(unat (dwFramePos h) + 1) mod capacity h < 4294967296" using v by linarith
    have cur: "map (unat \<circ> dwFramePos) (appendFrame_steps r h) =
        [unat (dwFramePos h), unat (dwFramePos h), (unat (dwFramePos h) + 1) mod capacity h]"
      using appendFrame_steps_fields(3) [of r h] unat_cursor [OF small]
      by (simp add: appendFrame_steps_def)
    have wr: "(arrFrame h)[unat (dwFramePos h) := r] ! unat (dwFramePos h) = r"
      using v by (simp add: capacity_def)
    have ap: "appendFrame r h = Some (last (appendFrame_steps r h))"
      using v by (simp add: appendFrame_def)
    show "appendFrame r h = Some (last (appendFrame_steps r h))
    \<and> map arrFrame (appendFrame_steps r h) =
        [(arrFrame h)[unat (dwFramePos h) := r], (arrFrame h)[unat (dwFramePos h) := r],
         (arrFrame h)[unat (dwFramePos h) := r]]
    \<and> (arrFrame h)[unat (dwFramePos h) := r] ! unat (dwFramePos h) = r
    \<and> map dwFrameCount (appendFrame_steps r h) =
        [dwFrameCount h, dwFrameCount h + 1, dwFrameCount h + 1]
    \<and> map (unat \<circ> dwFramePos) (appendFrame_steps r h) =
        [unat (dwFramePos h), unat (dwFramePos h), (unat (dwFramePos h) + 1) mod capacity h]"
      by (intro conjI ap appendFrame_steps_fields(1) wr appendFrame_steps_fields(2) cur)
  qed
  show ?thesis by (intro conjI run step)
qed

theorem C8_append_counters_witness:
  "(0::nat) < 4 \<and> (4::nat) < 4294967296
   \<and> map_option (unat \<circ> dwFrameCount)
        (appendFrames (replicate 6 (zero_frame 260)) (initialize 260 4 488)) = Some 6
   \<and> map_option (unat \<circ> dwFramePos)
        (appendFrames (replicate 6 (zero_frame 260)) (initialize 260 4 488)) = Some 2
   \<and> unat (dwFramePos (initialize 260 4 488)) < capacity (initialize 260 4 488)
   \<and> capacity (initialize 260 4 488) < 4294967296
   \<and> map dwFrameCount (appendFrame_steps (zero_frame 260) (initialize 260 4 488)) = [0, 1, 1]
   \<and> map (unat \<circ> dwFramePos) (appendFrame_steps (zero_frame 260) (initialize 260 4 488))
       = [0, 0, 1]"
proof -
  let ?h = "initialize 260 4 488"
  let ?rs = "replicate 6 (zero_frame 260)"
  have h0: "(0::nat) < 4 \<and> (4::nat) < 4294967296" by simp
  have h1: "unat (dwFramePos ?h) < capacity ?h \<and> capacity ?h < 4294967296"
    by (simp add: initialize_fields)
  note inst = C8_append_counters [where cap = 4 and MAX_PATH = 260 and es = 488 and rs = ?rs
      and h = ?h and r = "zero_frame 260"]
  from inst h0 have c1: "map_option (unat \<circ> dwFrameCount) (appendFrames ?rs ?h)
      = Some (length ?rs mod 4294967296)" by blast
  from inst h0 have c2: "map_option (unat \<circ> dwFramePos) (appendFrames ?rs ?h)
      = Some (length ?rs mod 4)" by blast
  from inst h1 have c3: "map dwFrameCount (appendFrame_steps (zero_frame 260) ?h)
      = [dwFrameCount ?h, dwFrameCount ?h + 1, dwFrameCount ?h + 1]" by blast
  from inst h1 have c4: "map (unat \<circ> dwFramePos) (appendFrame_steps (zero_frame 260) ?h)
      = [unat (dwFramePos ?h), unat (dwFramePos ?h), (unat (dwFramePos ?h) + 1) mod capacity ?h]"
    by blast
  have l: "length ?rs mod 4294967296 = 6" "length ?rs mod 4 = 2" by simp_all
  show ?thesis
    using h0 h1 c1 c2 c3 c4 unfolding l by (simp add: initialize_fields)
qed

text \<open>
  Claim C8 as first stated, for every number of appends, fails at \<open>k = 2\<^sup>3\<^sup>2\<close>: the
  32-bit frame count is back at 0.
\<close>

theorem C8_append_counters_counterexample:
  "length (replicate 4294967296 (zero_frame 260)) = 4294967296
   \<and> map_option (unat \<circ> dwFrameCount)
        (appendFrames (replicate 4294967296 (zero_frame 260)) (initialize 260 8192 488))
       = Some 0
   \<and> map_option (unat \<circ> dwFrameCount)
        (appendFrames (replicate 4294967296 (zero_frame 260)) (initialize 260 8192 488))
       \<noteq> Some 4294967296"
proof -
  let ?rs = "replicate 4294967296 (zero_frame 260)"
  have l: "length ?rs = 4294967296" by (simp only: length_replicate)
  have "(0::nat) < 8192" "(8192::nat) < 4294967296" by simp_all
  from appendFrames_initialize [OF this, of ?rs 260 488]
  obtain h' where h': "appendFrames ?rs (initialize 260 8192 488) = Some h'"
    "dwFrameCount h' = of_nat (length ?rs)" by blast
  have "unat (dwFrameCount h') = 0"
    unfolding h'(2) l by (simp add: unat_of_nat_32)
  then have c: "map_option (unat \<circ> dwFrameCount) (appendFrames ?rs (initialize 260 8192 488)) = Some 0"
    unfolding h'(1) by simp
  have d: "map_option (unat \<circ> dwFrameCount) (appendFrames ?rs (initialize 260 8192 488))
       \<noteq> Some 4294967296"
    unfolding c by simp
  show ?thesis by (intro conjI l c d)
qed

text \<open>
  Claim C9. Teardown writes the teardown magic into the signature. From then on the
  reader's verdict is the signature failure \<open>TornDown\<close> and never \<open>OK\<close>, whatever
  the other header fields hold, and also after any further appends by the producer.
\<close>

theorem C9_teardown_is_terminal:
  "dwSignature (teardown h) = TEARDOWN_MAGIC
   \<and> validate M (teardown h) = IncompatibleSignature TornDown
   \<and> validate M (teardown h) \<noteq> OK
   \<and> (unat (dwFramePos h) < capacity h \<and> capacity h < 4294967296 \<longrightarrow>
        map_option (validate M) (appendFrames rs (teardown h))
          = Some (IncompatibleSignature TornDown))"
proof -
  have a: "dwSignature (teardown h) = TEARDOWN_MAGIC" by (simp add: teardown_def)
  have b: "validate M (teardown h) = IncompatibleSignature TornDown"
    by (rule validate_teardown)
  have c: "unat (dwFramePos h) < capacity h \<and> capacity h < 4294967296 \<longrightarrow>
        map_option (validate M) (appendFrames rs (teardown h))
          = Some (IncompatibleSignature TornDown)"
  proof
    assume v: "unat (dwFramePos h) < capacity h \<and> capacity h < 4294967296"
    then have "unat (dwFramePos (teardown h)) < capacity (teardown h)"
      and "capacity (teardown h) < 4294967296"
      by (simp_all add: teardown_def capacity_def)
    from appendFrames_counters [OF this, of rs]
    obtain h' where h': "appendFrames rs (teardown h) = Some h'" by blast
    then have "dwSignature h' = TEARDOWN_MAGIC"
      using appendFrames_signature [of rs "teardown h" h'] a by simp
    then have "validate M h' = IncompatibleSignature TornDown"
      using magics_differ
      by (simp add: validate_signature_only signature_state_TornDown)
    with h' show "map_option (validate M) (appendFrames rs (teardown h))
          = Some (IncompatibleSignature TornDown)" by simp
  qed
  show ?thesis using a b c by simp
qed

theorem C9_teardown_is_terminal_witness:
  "unat (dwFramePos (initialize 260 4 488)) < capacity (initialize 260 4 488)
   \<and> capacity (initialize 260 4 488) < 4294967296
   \<and> validate 1 (initialize 260 4 488) = OK
   \<and> validate 1 (teardown (initialize 260 4 488)) = IncompatibleSignature TornDown
   \<and> map_option (validate 1)
        (appendFrames [zero_frame 260, zero_frame 260] (teardown (initialize 260 4 488)))
       = Some (IncompatibleSignature TornDown)"
proof -
  let ?h = "initialize 260 4 488"
  have h1: "unat (dwFramePos ?h) < capacity ?h" by (simp add: initialize_fields)
  have h2: "capacity ?h < 4294967296" by (simp add: initialize_fields)
  have ok: "validate 1 ?h = OK"
    by (simp add: validate_OK initialize_fields version_major_make)
  note inst = C9_teardown_is_terminal [where h = ?h and M = 1
      and rs = "[zero_frame 260, zero_frame 260]"]
  from inst have c1: "validate 1 (teardown ?h) = IncompatibleSignature TornDown" by blast
  from inst h1 h2 have c2: "map_option (validate 1)
        (appendFrames [zero_frame 260, zero_frame 260] (teardown ?h))
       = Some (IncompatibleSignature TornDown)" by blast
  show ?thesis using h1 h2 ok c1 c2 by (intro conjI)
qed

end
